theory Spec2Isabelle
  imports Main "HOL-Library.AList"
begin

section \<open>The documentation generator \<^verbatim>\<open>generate.py\<close>\<close>

text \<open>
  A Python \<^verbatim>\<open>str\<close> is modelled as a \<^typ>\<open>string\<close>: each \<^typ>\<open>char\<close> stands for one code
  point below 256, which covers every ASCII dump. A raised exception is a value of
  \<open>error\<close> on the left of a sum.
\<close>

datatype error = IndexError | AttributeError | KeyError | TypeError | ValueError | OSError

subsection \<open>Library functions on strings\<close>

text \<open>The line boundaries of \<^verbatim>\<open>str.splitlines\<close> and the class \<^verbatim>\<open>\s\<close> of \<^verbatim>\<open>re\<close>.\<close>

definition is_linebreak :: "char \<Rightarrow> bool" where
  "is_linebreak c = (c \<in> set [CHR 0x0A, CHR 0x0B, CHR 0x0C, CHR 0x0D,
                                CHR 0x1C, CHR 0x1D, CHR 0x1E, CHR 0x85])"

definition is_space :: "char \<Rightarrow> bool" where
  "is_space c = (c \<in> set [CHR 0x09, CHR 0x0A, CHR 0x0B, CHR 0x0C, CHR 0x0D,
                           CHR 0x1C, CHR 0x1D, CHR 0x1E, CHR 0x1F, CHR 0x20,
                           CHR 0x85, CHR 0xA0])"

text \<open>
  \<^verbatim>\<open>s.partition(sep)\<close>, as an option: the text before and after the leftmost occurrence
  of \<open>sep\<close>. Every separator of the program is a non-empty literal (Python raises
  ValueError on an empty one).
\<close>

fun partition_sep :: "string \<Rightarrow> string \<Rightarrow> (string \<times> string) option" where
  "partition_sep sep [] = None"
| "partition_sep sep (c # cs) =
     (if sep \<noteq> [] \<and> take (length sep) (c # cs) = sep
      then Some ([], drop (length sep) (c # cs))
      else map_option (\<lambda>(a, b). (c # a, b)) (partition_sep sep cs))"

text \<open>\<^verbatim>\<open>s.split(sep)\<close>: cut at each occurrence of \<open>sep\<close>, found from the left.\<close>

function split :: "string \<Rightarrow> string \<Rightarrow> string list" where
  "split sep s =
     (case partition_sep sep s of
        None \<Rightarrow> [s]
      | Some (a, b) \<Rightarrow> a # split sep b)"
  by pat_completeness auto
termination
proof (relation "measure (\<lambda>(sep, s). length s)")
  show "wf (measure (\<lambda>(sep, s). length s))" by simp
next
  fix sep s :: string and x2 a b
  assume p: "partition_sep sep s = Some x2" and x: "(a, b) = x2"
  have "\<And>a b. partition_sep sep s = Some (a, b) \<Longrightarrow> length b < length s"
  proof (induction s)
    case Nil
    then show ?case by simp
  next
    case (Cons c cs)
    show ?case
    proof (cases "sep \<noteq> [] \<and> take (length sep) (c # cs) = sep")
      case True
      with Cons.prems have "b = drop (length sep) (c # cs)" and "0 < length sep"
        by auto
      then show ?thesis by simp
    next
      case False
      with Cons.prems obtain a' where "partition_sep sep cs = Some (a', b)"
        by (auto split: prod.splits)
      from Cons.IH [OF this] show ?thesis by simp
    qed
  qed
  with p x show "((sep, b), sep, s) \<in> measure (\<lambda>(sep, s). length s)" by auto
qed

declare split.simps [simp del]

text \<open>\<^verbatim>\<open>s.split(sep, 1)\<close>: cut at the leftmost occurrence only.\<close>

definition split1 :: "string \<Rightarrow> string \<Rightarrow> string list" where
  "split1 sep s =
     (case partition_sep sep s of
        None \<Rightarrow> [s]
      | Some (a, b) \<Rightarrow> [a, b])"

text \<open>
  \<^verbatim>\<open>s.splitlines()\<close>: cut at every line boundary, \<^verbatim>\<open>\r\n\<close> counting as one; a boundary at
  the very end opens no further line.
\<close>

fun splitlines :: "string \<Rightarrow> string list" where
  "splitlines [] = []"
| "splitlines (c # cs) =
     (if is_linebreak c then
        (case cs of
           d # ds \<Rightarrow> if c = CHR 0x0D \<and> d = CHR 0x0A then [] # splitlines ds
                     else [] # splitlines cs
         | [] \<Rightarrow> [[]])
      else
        (case splitlines cs of
           [] \<Rightarrow> [[c]]
         | l # ls \<Rightarrow> (c # l) # ls))"

text \<open>\<^verbatim>\<open>sep.join(xs)\<close>.\<close>

fun join :: "string \<Rightarrow> string list \<Rightarrow> string" where
  "join sep [] = []"
| "join sep [x] = x"
| "join sep (x # y # ys) = x @ sep @ join sep (y # ys)"

subsection \<open>The two regular expressions\<close>

definition sep37 :: string where
  "sep37 = replicate 37 CHR ''=''"

text \<open>
  The pattern \<^verbatim>\<open>\n?={37}\n?\<close> tried at the start of \<open>s\<close>: the text after the match. Both
  \<^verbatim>\<open>\n?\<close> are greedy; the first gives its newline back only if the run then fits, which
  it cannot (the newline is no \<^verbatim>\<open>=\<close>).
\<close>

definition match_sep :: "string \<Rightarrow> string option" where
  "match_sep s =
     (let after_run =
        (if take 38 s = CHR 0x0A # sep37 then Some (drop 38 s)
         else if take 37 s = sep37 then Some (drop 37 s)
         else None)
      in map_option
           (\<lambda>r. case r of [] \<Rightarrow> r | c # r' \<Rightarrow> if c = CHR 0x0A then r' else r)
           after_run)"

text \<open>\<^verbatim>\<open>re.sub(r"\n?={37}\n?", "", line)\<close>: every match, found from the left, is removed.\<close>

function sub_sep :: "string \<Rightarrow> string" where
  "sub_sep [] = []"
| "sub_sep (c # cs) =
     (case match_sep (c # cs) of
        Some r \<Rightarrow> sub_sep r
      | None \<Rightarrow> c # sub_sep cs)"
  by pat_completeness auto
termination
proof (relation "measure length")
  show "wf (measure length)" by simp
next
  fix c :: char and cs r :: string
  assume "match_sep (c # cs) = Some r"
  then have "length r \<le> length (c # cs) - 37" and "37 \<le> length (c # cs)"
    by (auto simp: match_sep_def Let_def sep37_def
        split: if_splits list.splits dest!: arg_cong [where f = length])
  then show "(r, c # cs) \<in> measure length" by simp
next
  fix c :: char and cs :: string
  show "(cs, c # cs) \<in> measure length" by simp
qed

text \<open>
  \<^verbatim>\<open>re.findall(r"([^:]+):\s*(.*)", info)\<close>, its first element if there is one: the match is
  searched from each position in turn; \<^verbatim>\<open>[^:]+\<close> takes the whole run of non-colons, which
  a colon must follow; \<^verbatim>\<open>\s*\<close> takes all the whitespace there is and \<^verbatim>\<open>.*\<close> the rest up to
  a newline.
\<close>

fun findall_first :: "string \<Rightarrow> (string \<times> string) option" where
  "findall_first [] = None"
| "findall_first (c # cs) =
     (if c \<noteq> CHR '':'' then
        (case dropWhile (\<lambda>x. x \<noteq> CHR '':'') cs of
           [] \<Rightarrow> findall_first cs
         | _ # r \<Rightarrow>
             Some (c # takeWhile (\<lambda>x. x \<noteq> CHR '':'') cs,
                   takeWhile (\<lambda>x. x \<noteq> CHR 0x0A) (dropWhile is_space r)))
      else findall_first cs)"

subsection \<open>Records\<close>

text \<open>
  An \<^verbatim>\<open>Instance\<close> object is its attribute dictionary, in insertion order. An attribute
  holds a string or, for \<^verbatim>\<open>Values\<close>, \<^verbatim>\<open>Functions\<close>, \<^verbatim>\<open>Members\<close> and \<^verbatim>\<open>Hooks\<close>, a list of
  records. No record that sits in such a list is appended to later (only records filed
  under Enum or Class are, and those are never list members), so values stand for the
  objects.
\<close>

datatype pyval = Str string | Lst "Instance list"
  and Instance = Obj (dict: "(string \<times> pyval) list")

definition bind :: "error + 'a \<Rightarrow> ('a \<Rightarrow> error + 'b) \<Rightarrow> error + 'b" where
  "bind m f = (case m of Inl e \<Rightarrow> Inl e | Inr x \<Rightarrow> f x)"

fun collect :: "(error + 'a) list \<Rightarrow> error + 'a list" where
  "collect [] = Inr []"
| "collect (x # xs) =
     (case x of
        Inl e \<Rightarrow> Inl e
      | Inr v \<Rightarrow> (case collect xs of Inl e \<Rightarrow> Inl e | Inr vs \<Rightarrow> Inr (v # vs)))"

definition getattr :: "Instance \<Rightarrow> string \<Rightarrow> error + pyval" where
  "getattr inst name =
     (case map_of (dict inst) name of None \<Rightarrow> Inl AttributeError | Some v \<Rightarrow> Inr v)"

text \<open>An assignment \<^verbatim>\<open>self.name = v\<close> with the name written in the source.\<close>

definition store :: "Instance \<Rightarrow> string \<Rightarrow> pyval \<Rightarrow> Instance" where
  "store inst name v = Obj (AList.update name v (dict inst))"

text \<open>
  \<^verbatim>\<open>setattr(self, name, value)\<close> with a name read from the dump: \<^verbatim>\<open>__class__\<close> and
  \<^verbatim>\<open>__dict__\<close> refuse a string (TypeError) and \<^verbatim>\<open>__weakref__\<close> is not writable
  (AttributeError); every other name is stored.
\<close>

definition setattr :: "Instance \<Rightarrow> string \<Rightarrow> pyval \<Rightarrow> error + Instance" where
  "setattr inst name v =
     (if name = ''__class__'' \<or> name = ''__dict__'' then Inl TypeError
      else if name = ''__weakref__'' then Inl AttributeError
      else Inr (store inst name v))"

text \<open>The body of the loop of \<^verbatim>\<open>Instance.__init__\<close>, for one line.\<close>

definition init_line :: "Instance \<Rightarrow> string \<Rightarrow> error + Instance" where
  "init_line self info =
     (case findall_first info of
        None \<Rightarrow> Inl IndexError
      | Some (name, value) \<Rightarrow>
          if map_of (dict self) ''Type'' = None then
            (let self1 = store (store self ''Type'' (Str name)) ''Name'' (Str value)
             in Inr (if name = ''Enum'' then store self1 ''Values'' (Lst [])
                     else if name = ''Class'' then
                       store (store (store self1 ''Functions'' (Lst []))
                                ''Members'' (Lst [])) ''Hooks'' (Lst [])
                     else self1))
          else setattr self name (Str value))"

fun init_lines :: "Instance \<Rightarrow> string list \<Rightarrow> error + Instance" where
  "init_lines self [] = Inr self"
| "init_lines self (info # rest) =
     (case init_line self info of
        Inl e \<Rightarrow> Inl e
      | Inr self' \<Rightarrow> init_lines self' rest)"

text \<open>\<^verbatim>\<open>Instance(text_info)\<close>.\<close>

definition Instance_init :: "string \<Rightarrow> error + Instance" where
  "Instance_init text_info =
     (case init_lines (Obj []) (splitlines text_info) of
        Inl e \<Rightarrow> Inl e
      | Inr self \<Rightarrow>
          Inr (if map_of (dict self) ''Description'' = None
               then store self ''Description'' (Str [])
               else self))"

subsection \<open>Classification: \<^verbatim>\<open>gather_info\<close>\<close>

text \<open>
  The category mappings: a dictionary from the type to a dictionary from the name to the
  record, both in insertion order. \<open>AList.update\<close> is the assignment \<^verbatim>\<open>d[k] = v\<close>: a known
  key keeps its place, a new one is added at the end.
\<close>

type_synonym info = "(string \<times> (string \<times> Instance) list) list"

definition info_init :: info where
  "info_init =
     [(''Enum'', []), (''Constant'', []), (''Class'', []), (''Function'', []), (''Hook'', [])]"

text \<open>
  The test \<^verbatim>\<open>inst.Type == ty and (p := inst.Name.split(sep)[0]) in info[cat].keys()\<close>: the
  prefix \<open>p\<close> when the test holds. \<^verbatim>\<open>and\<close> evaluates its right side only if the left holds.
\<close>

definition owner :: "info \<Rightarrow> Instance \<Rightarrow> string \<Rightarrow> string \<Rightarrow> string \<Rightarrow> error + string option" where
  "owner info inst ty sep cat =
     bind (getattr inst ''Type'') (\<lambda>t.
       if t = Str ty then
         bind (getattr inst ''Name'') (\<lambda>n.
           case n of
             Lst _ \<Rightarrow> Inl AttributeError
           | Str name \<Rightarrow>
               (case map_of info cat of
                  None \<Rightarrow> Inl KeyError
                | Some d \<Rightarrow>
                    Inr (if map_of d (hd (split sep name)) \<noteq> None
                         then Some (hd (split sep name)) else None)))
       else Inr None)"

text \<open>\<^verbatim>\<open>info[cat][key].field.append(inst)\<close>.\<close>

definition append_child :: "info \<Rightarrow> string \<Rightarrow> string \<Rightarrow> string \<Rightarrow> Instance \<Rightarrow> error + info" where
  "append_child info cat key field inst =
     (case map_of info cat of
        None \<Rightarrow> Inl KeyError
      | Some d \<Rightarrow>
          (case map_of d key of
             None \<Rightarrow> Inl KeyError
           | Some parent \<Rightarrow>
               (case map_of (dict parent) field of
                  Some (Lst xs) \<Rightarrow>
                    Inr (AList.update cat
                           (AList.update key (store parent field (Lst (xs @ [inst]))) d) info)
                | _ \<Rightarrow> Inl AttributeError)))"

text \<open>\<^verbatim>\<open>info[inst.Type][inst.Name] = inst\<close>.\<close>

definition file_inst :: "info \<Rightarrow> Instance \<Rightarrow> error + info" where
  "file_inst info inst =
     bind (getattr inst ''Type'') (\<lambda>t.
       case t of
         Lst _ \<Rightarrow> Inl TypeError
       | Str ty \<Rightarrow>
           (case map_of info ty of
              None \<Rightarrow> Inl KeyError
            | Some d \<Rightarrow>
                bind (getattr inst ''Name'') (\<lambda>n.
                  case n of
                    Lst _ \<Rightarrow> Inl TypeError
                  | Str name \<Rightarrow> Inr (AList.update ty (AList.update name inst d) info))))"

text \<open>
  The two statements after \<^verbatim>\<open>inst = Instance(line)\<close>: the \<^verbatim>\<open>if\<close> on constants, then the
  chain \<^verbatim>\<open>if\<close> / \<^verbatim>\<open>elif\<close> / \<^verbatim>\<open>elif\<close> / \<^verbatim>\<open>else\<close>, which starts anew whatever the first did.
\<close>

definition classify :: "info \<Rightarrow> Instance \<Rightarrow> error + info" where
  "classify info inst =
     bind (owner info inst ''Constant'' ''.'' ''Enum'') (\<lambda>enum_const.
     bind (case enum_const of
             Some e \<Rightarrow> append_child info ''Enum'' e ''Values'' inst
           | None \<Rightarrow> Inr info) (\<lambda>info1.
     bind (owner info1 inst ''Function'' ''::'' ''Class'') (\<lambda>class_func.
       case class_func of
         Some c \<Rightarrow> append_child info1 ''Class'' c ''Functions'' inst
       | None \<Rightarrow>
     bind (owner info1 inst ''Member'' ''.'' ''Class'') (\<lambda>class_member.
       case class_member of
         Some c \<Rightarrow> append_child info1 ''Class'' c ''Members'' inst
       | None \<Rightarrow>
     bind (owner info1 inst ''Hook'' '' -> '' ''Class'') (\<lambda>class_hook.
       case class_hook of
         Some c \<Rightarrow> append_child info1 ''Class'' c ''Hooks'' inst
       | None \<Rightarrow> file_inst info1 inst)))))"

text \<open>The body of the loop of \<^verbatim>\<open>gather_info\<close>, for one block.\<close>

definition gather_block :: "info \<Rightarrow> string \<Rightarrow> error + info" where
  "gather_block info line = bind (Instance_init (sub_sep line)) (classify info)"

fun gather_blocks :: "info \<Rightarrow> string list \<Rightarrow> error + info" where
  "gather_blocks info [] = Inr info"
| "gather_blocks info (line # rest) =
     (case gather_block info line of
        Inl e \<Rightarrow> Inl e
      | Inr info' \<Rightarrow> gather_blocks info' rest)"

definition gather_info :: "string \<Rightarrow> error + info" where
  "gather_info raw = gather_blocks info_init (split ''\<newline>\<newline>'' raw)"

subsection \<open>Rendering\<close>

text \<open>
  An attribute read into an f-string. \<^verbatim>\<open>Name\<close>, \<^verbatim>\<open>Value\<close>, \<^verbatim>\<open>Description\<close> and
  \<^verbatim>\<open>Signature\<close> never hold a list, so the second case is never reached.
\<close>

definition attr_str :: "Instance \<Rightarrow> string \<Rightarrow> error + string" where
  "attr_str inst name =
     bind (getattr inst name) (\<lambda>v. case v of Str s \<Rightarrow> Inr s | Lst _ \<Rightarrow> Inl TypeError)"

text \<open>
  A \<^verbatim>\<open>for\<close> over an attribute whose elements are read as records: a list gives its
  records; a string gives its characters, and the first of them has no \<^verbatim>\<open>Name\<close>.
\<close>

definition iter_records :: "pyval \<Rightarrow> error + Instance list" where
  "iter_records v =
     (case v of Lst xs \<Rightarrow> Inr xs | Str s \<Rightarrow> if s = [] then Inr [] else Inl AttributeError)"

text \<open>Truth of a value: the empty string and the empty list are false.\<close>

definition truthy :: "pyval \<Rightarrow> bool" where
  "truthy v = (case v of Str s \<Rightarrow> s \<noteq> [] | Lst xs \<Rightarrow> xs \<noteq> [])"

definition table_row :: "Instance \<Rightarrow> error + string" where
  "table_row constant =
     bind (attr_str constant ''Name'') (\<lambda>name.
     bind (attr_str constant ''Value'') (\<lambda>val.
     bind (attr_str constant ''Description'') (\<lambda>description.
       Inr (''| '' @ name @ '' | '' @ val @ '' |''
            @ (if description \<noteq> [] then '' '' @ description @ '' |'' else [])
            @ ''\<newline>''))))"

definition generate_table :: "Instance list \<Rightarrow> error + string" where
  "generate_table constants =
     bind (collect (map table_row constants)) (\<lambda>rows.
       Inr (''| Name | Value | Description |\<newline>| --- | --- | --- |\<newline>''
            @ concat rows @ ''\<newline>''))"

definition describe_signed :: "Instance \<Rightarrow> nat \<Rightarrow> error + string" where
  "describe_signed func indents =
     bind (attr_str func ''Name'') (\<lambda>name.
     bind (attr_str func ''Description'') (\<lambda>description.
     bind (attr_str func ''Signature'') (\<lambda>signature.
       Inr (replicate indents CHR ''#'' @ '' '' @ name @ ''\<newline>''
            @ (if description \<noteq> [] then ''\<newline>'' @ description @ ''\<newline>'' else [])
            @ ''\<newline>```cpp\<newline>'' @ signature @ ''\<newline>```\<newline>''))))"

definition signed_page :: "Instance list \<Rightarrow> string \<Rightarrow> error + string" where
  "signed_page signed_list type =
     bind (collect (map (\<lambda>signed. describe_signed signed 4) signed_list)) (\<lambda>ds.
       Inr (''### '' @ type @ ''\<newline>\<newline>'' @ join ''\<newline>'' ds @ ''\<newline>''))"

definition pretty_names :: "(string \<times> string) list" where
  "pretty_names =
     [(''Enum'', ''Enums''), (''Constant'', ''Constants''), (''Class'', ''Classes''),
      (''Function'', ''Global Functions''), (''Hook'', ''Global Hooks'')]"

text \<open>The \<^verbatim>\<open>case "Enum"\<close> of the inner loop of \<^verbatim>\<open>generate_docs\<close>.\<close>

definition enum_section :: "Instance \<Rightarrow> error + string" where
  "enum_section class_instance =
     bind (attr_str class_instance ''Name'') (\<lambda>name.
     bind (attr_str class_instance ''Description'') (\<lambda>description.
     bind (getattr class_instance ''Values'') (\<lambda>vals.
     bind (iter_records vals) (\<lambda>constants.
     bind (generate_table constants) (\<lambda>table.
       Inr (''## '' @ name @ ''\<newline>\<newline>''
            @ (if description \<noteq> [] then description @ ''\<newline>'' else [])
            @ table))))))"

text \<open>One of the three lists of a class, when it is not empty.\<close>

definition class_part :: "Instance \<Rightarrow> string \<Rightarrow> error + string" where
  "class_part class_instance field =
     bind (getattr class_instance field) (\<lambda>v.
       if truthy v then bind (iter_records v) (\<lambda>xs. signed_page xs field) else Inr [])"

text \<open>The \<^verbatim>\<open>case "Class"\<close> of the inner loop.\<close>

definition class_section :: "Instance \<Rightarrow> error + string" where
  "class_section class_instance =
     bind (attr_str class_instance ''Name'') (\<lambda>name.
     bind (attr_str class_instance ''Description'') (\<lambda>description.
     bind (class_part class_instance ''Members'') (\<lambda>members.
     bind (class_part class_instance ''Functions'') (\<lambda>functions.
     bind (class_part class_instance ''Hooks'') (\<lambda>hooks.
       Inr (''## '' @ name @ ''\<newline>\<newline>''
            @ (if description \<noteq> [] then description @ ''\<newline>\<newline>'' else [])
            @ members @ functions @ hooks))))))"

text \<open>
  The body of the outer loop of \<^verbatim>\<open>generate_docs\<close>: the document of one category. The
  module's global \<^verbatim>\<open>version\<close> is a parameter.
\<close>

definition generate_doc :: "string \<Rightarrow> string \<Rightarrow> string \<times> (string \<times> Instance) list \<Rightarrow> error + string" where
  "generate_doc version category item =
     (case item of (type, class_dict) \<Rightarrow>
        (case map_of pretty_names type of
           None \<Rightarrow> Inl KeyError
         | Some pretty \<Rightarrow>
             bind (collect (map (\<lambda>(_, class_instance).
                     if type = ''Enum'' then enum_section class_instance
                     else if type = ''Class'' then class_section class_instance
                     else Inr []) class_dict)) (\<lambda>sections.
             bind (if type = ''Constant'' then generate_table (map snd class_dict)
                   else if type = ''Function'' \<or> type = ''Hook'' then
                     bind (collect (map (\<lambda>class_value. describe_signed class_value 2)
                                      (map snd class_dict))) (\<lambda>ds.
                       Inr (join ''\<newline>'' ds @ ''\<newline>''))
                   else Inr []) (\<lambda>trailer.
               Inr (butlast (''# VScript '' @ category @ '' '' @ pretty @ '', version ''
                             @ version @ ''\<newline>\<newline>Generated by Macosaro\<newline>\<newline>''
                             @ concat sections @ trailer))))))"

definition generate_docs :: "string \<Rightarrow> info \<Rightarrow> string \<Rightarrow> error + string list" where
  "generate_docs version info_dict category =
     collect (map (generate_doc version category) info_dict)"

subsection \<open>The module body\<close>

text \<open>
  What the program does to the file system, in order. Creating a directory and writing a
  file are taken to succeed; \<open>ex\<close> tells which paths exist when the program starts.
\<close>

datatype effect = Mkdir string | Write string string

definition item :: "'a list \<Rightarrow> nat \<Rightarrow> error + 'a" where
  "item xs i = (if i < length xs then Inr (xs ! i) else Inl IndexError)"

text \<open>A sequence of statements: the effects up to the first exception, and that exception.\<close>

fun run :: "(error + effect) list \<Rightarrow> effect list \<times> error option" where
  "run [] = ([], None)"
| "run (Inl e # rest) = ([], Some e)"
| "run (Inr x # rest) = (case run rest of (xs, r) \<Rightarrow> (x # xs, r))"

definition write_context :: "(string \<Rightarrow> bool) \<Rightarrow> string \<Rightarrow> string list \<Rightarrow> (error + effect) list" where
  "write_context ex dir docs =
     (if \<not> ex dir then [Inr (Mkdir dir)] else [])
     @ [bind (item docs 0) (\<lambda>d. Inr (Write (dir @ ''/enums.md'') d)),
        bind (item docs 1) (\<lambda>d. Inr (Write (dir @ ''/constants.md'') d)),
        bind (item docs 2) (\<lambda>d. Inr (Write (dir @ ''/classes.md'') d)),
        bind (item docs 3) (\<lambda>d. Inr (Write (dir @ ''/functions.md'') d)),
        bind (item docs 4) (\<lambda>d. Inr (Write (dir @ ''/hooks.md'') d))]"

text \<open>
  The whole program on the text of \<^verbatim>\<open>mapbase_7.1.txt\<close> (\<open>None\<close> when the file cannot be
  read). Unpacking a split into two names raises ValueError unless it has two parts.
\<close>

definition main :: "(string \<Rightarrow> bool) \<Rightarrow> string option \<Rightarrow> effect list \<times> error option" where
  "main ex file =
     (case file of
        None \<Rightarrow> ([], Some OSError)
      | Some dump0 \<Rightarrow>
          (case split1 ''\<newline>'' dump0 of
             [version, dump] \<Rightarrow>
               (case split ''\<newline>DOCUMENTATION_CLIENT\<newline>'' dump of
                  [server_text, client_text] \<Rightarrow>
                    (case bind (gather_info server_text)
                            (\<lambda>i. generate_docs version i ''Server'') of
                       Inl e \<Rightarrow> ([], Some e)
                     | Inr server_docs \<Rightarrow>
                         (case bind (gather_info client_text)
                                 (\<lambda>i. generate_docs version i ''Client'') of
                            Inl e \<Rightarrow> ([], Some e)
                          | Inr client_docs \<Rightarrow>
                              run (write_context ex ''server'' server_docs
                                   @ write_context ex ''client'' client_docs)))
                | _ \<Rightarrow> ([], Some ValueError))
           | _ \<Rightarrow> ([], Some ValueError)))"

subsection \<open>Notions used in the properties\<close>

text \<open>The text holds 37 consecutive \<^verbatim>\<open>=\<close> somewhere.\<close>

fun contains_sep37 :: "string \<Rightarrow> bool" where
  "contains_sep37 [] = False"
| "contains_sep37 (c # cs) = (take 37 (c # cs) = sep37 \<or> contains_sep37 cs)"

text \<open>The attribute names that \<open>setattr\<close> refuses.\<close>

definition refused :: "string \<Rightarrow> bool" where
  "refused name = (name = ''__class__'' \<or> name = ''__dict__'' \<or> name = ''__weakref__'')"

text \<open>The line matches the pattern and its key is a refused name.\<close>

definition key_refused :: "string \<Rightarrow> bool" where
  "key_refused l = (case findall_first l of None \<Rightarrow> False | Some (k, v) \<Rightarrow> refused k)"

text \<open>A line after the first that stops \<^verbatim>\<open>Instance.__init__\<close>.\<close>

definition later_line_fails :: "string \<Rightarrow> bool" where
  "later_line_fails l = (case findall_first l of None \<Rightarrow> True | Some (k, v) \<Rightarrow> refused k)"

text \<open>The value of the last of the lines \<open>ls\<close> whose key is \<open>key\<close>, if there is one.\<close>

definition assigned :: "string list \<Rightarrow> string \<Rightarrow> string option" where
  "assigned ls key = map_of (rev (List.map_filter findall_first ls)) key"

text \<open>The record after a first line with key \<open>name\<close> and value \<open>val\<close>.\<close>

definition first_attrs :: "string \<Rightarrow> string \<Rightarrow> Instance" where
  "first_attrs name val =
     Obj ([(''Type'', Str name), (''Name'', Str val)]
          @ (if name = ''Enum'' then [(''Values'', Lst [])]
             else if name = ''Class'' then
               [(''Functions'', Lst []), (''Members'', Lst []), (''Hooks'', Lst [])]
             else []))"

text \<open>The mapping of one category (empty for a type that is none of the five).\<close>

definition category :: "info \<Rightarrow> string \<Rightarrow> (string \<times> Instance) list" where
  "category info c = (case map_of info c of None \<Rightarrow> [] | Some d \<Rightarrow> d)"

text \<open>The five categories, in their order, each with one entry for a name.\<close>

definition wf_info :: "info \<Rightarrow> bool" where
  "wf_info info =
     (map fst info = [''Enum'', ''Constant'', ''Class'', ''Function'', ''Hook'']
      \<and> list_all (\<lambda>(t, d). distinct (map fst d)) info)"

text \<open>\<^verbatim>\<open>name.split(sep)[0]\<close>.\<close>

definition prefix_of :: "string \<Rightarrow> string \<Rightarrow> string" where
  "prefix_of sep name = hd (split sep name)"

text \<open>\<^verbatim>\<open>key in info[cat].keys()\<close>.\<close>

definition known :: "info \<Rightarrow> string \<Rightarrow> string \<Rightarrow> bool" where
  "known info cat key = (map_of (category info cat) key \<noteq> None)"

text \<open>The test of the first \<^verbatim>\<open>if\<close>: a constant whose prefix names a filed enum.\<close>

definition enum_known :: "info \<Rightarrow> string \<Rightarrow> string \<Rightarrow> bool" where
  "enum_known info ty name =
     (ty = ''Constant'' \<and> known info ''Enum'' (prefix_of ''.'' name))"

text \<open>The tests of the chain: a function, member or hook whose prefix names a filed class.\<close>

definition class_known :: "info \<Rightarrow> string \<Rightarrow> string \<Rightarrow> bool" where
  "class_known info ty name =
     (ty = ''Function'' \<and> known info ''Class'' (prefix_of ''::'' name)
      \<or> ty = ''Member'' \<and> known info ''Class'' (prefix_of ''.'' name)
      \<or> ty = ''Hook'' \<and> known info ''Class'' (prefix_of '' -> '' name))"

text \<open>The record \<open>c\<close> is among the \<^verbatim>\<open>Values\<close> of the enum filed under \<open>e\<close>.\<close>

definition nested :: "info \<Rightarrow> string \<Rightarrow> Instance \<Rightarrow> bool" where
  "nested info e c =
     (case map_of (category info ''Enum'') e of
        None \<Rightarrow> False
      | Some parent \<Rightarrow>
          (case map_of (dict parent) ''Values'' of
             Some (Lst vs) \<Rightarrow> c \<in> set vs
           | _ \<Rightarrow> False))"

text \<open>The block is parsed to a record of type \<open>ty\<close> named \<open>name\<close>.\<close>

definition block_is :: "string \<Rightarrow> string \<Rightarrow> string \<Rightarrow> bool" where
  "block_is ty name blk =
     (case Instance_init (sub_sep blk) of
        Inl _ \<Rightarrow> False
      | Inr i \<Rightarrow> getattr i ''Type'' = Inr (Str ty) \<and> getattr i ''Name'' = Inr (Str name))"




section \<open>Properties\<close>

subsection \<open>Basic facts\<close>

lemma bind_Inl: "bind (Inl e) f = Inl e"
  by (simp add: bind_def)

lemma bind_Inr: "bind (Inr x) f = f x"
  by (simp add: bind_def)

subsection \<open>The line pattern\<close>


lemma findall_first_no_colon: "CHR '':'' \<notin> set l \<Longrightarrow> findall_first l = None"
proof (induction l)
  case Nil
  then show ?case by simp
next
  case (Cons c cs)
  from Cons.prems have "dropWhile (\<lambda>x. x \<noteq> CHR '':'') cs = []" by auto
  with Cons show ?case by (simp del: dropWhile_eq_Nil_conv)
qed

text \<open>Colons at the start of a line are skipped: the key starts at the first other character.\<close>

lemma findall_first_leading_colons:
  "findall_first (replicate n CHR '':'' @ s) = findall_first s"
  by (induction n) auto

subsection \<open>Stripping the separator\<close>

lemma length_sep37: "length sep37 = 37"
  by (simp add: sep37_def)

lemma sep37_Cons: "sep37 = CHR ''='' # replicate 36 CHR ''=''"
  by (simp add: sep37_def replicate_Suc [symmetric] del: replicate_Suc)

lemma set_sep37: "set sep37 = {CHR ''=''}"
  by (simp add: sep37_def)

lemma take_is_sep37: "take 37 s = sep37 \<Longrightarrow> CHR ''='' \<in> set s"
proof -
  assume "take 37 s = sep37"
  then have "CHR ''='' \<in> set (take 37 s)" by (simp add: set_sep37)
  then show ?thesis by (rule in_set_takeD)
qed

lemma take38: "take 38 (c # cs) = c # take 37 cs"
  by (simp add: take_Cons')

lemma match_sep_None:
  assumes "take 37 (c # cs) \<noteq> sep37" and "c = CHR 0x0A \<longrightarrow> take 37 cs \<noteq> sep37"
  shows "match_sep (c # cs) = None"
  using assms by (simp add: match_sep_def take38 del: take_Cons_numeral)

lemma sub_sep_no_run: "\<not> contains_sep37 s \<Longrightarrow> sub_sep s = s"
proof (induction s)
  case Nil
  then show ?case by simp
next
  case (Cons c cs)
  then have a: "take 37 (c # cs) \<noteq> sep37" and b: "\<not> contains_sep37 cs" by simp_all
  from b have "take 37 cs \<noteq> sep37" by (cases cs) (auto simp: sep37_Cons)
  with a have "match_sep (c # cs) = None" by (intro match_sep_None) simp_all
  with Cons.IH [OF b] show ?case by simp
qed

lemma no_eq_no_run: "CHR ''='' \<notin> set s \<Longrightarrow> \<not> contains_sep37 s"
proof (induction s)
  case Nil
  then show ?case by simp
next
  case (Cons c cs)
  then have "take 37 (c # cs) \<noteq> sep37" using take_is_sep37 [of "c # cs"] by blast
  with Cons show ?case by simp
qed

lemma match_sep_at_run:
  "match_sep (sep37 @ b) = Some (if b \<noteq> [] \<and> hd b = CHR 0x0A then tl b else b)"
proof -
  have "take 38 (sep37 @ b) \<noteq> CHR 0x0A # sep37"
    by (simp add: sep37_Cons take_Cons')
  moreover have "take 37 (sep37 @ b) = sep37" "drop 37 (sep37 @ b) = b"
    using length_sep37 by simp_all
  ultimately show ?thesis
    by (cases b) (simp_all add: match_sep_def)
qed

lemma match_sep_at_newline_run:
  "match_sep (CHR 0x0A # sep37 @ b) = Some (if b \<noteq> [] \<and> hd b = CHR 0x0A then tl b else b)"
proof -
  have "take 38 (CHR 0x0A # sep37 @ b) = CHR 0x0A # sep37" "drop 38 (CHR 0x0A # sep37 @ b) = b"
    using length_sep37 by (simp_all add: take_Cons' drop_Cons')
  then show ?thesis
    by (cases b) (simp_all add: match_sep_def)
qed

lemma sub_sep_one_run:
  assumes "CHR ''='' \<notin> set a" and "CHR ''='' \<notin> set b"
  shows "sub_sep (a @ sep37 @ b)
         = (if a \<noteq> [] \<and> last a = CHR 0x0A then butlast a else a)
           @ (if b \<noteq> [] \<and> hd b = CHR 0x0A then tl b else b)"
  using assms(1)
proof (induction a)
  case Nil
  let ?b = "if b \<noteq> [] \<and> hd b = CHR 0x0A then tl b else b"
  from assms(2) have "CHR ''='' \<notin> set ?b" by (auto dest: list.set_sel(2))
  then have "sub_sep ?b = ?b" by (intro sub_sep_no_run no_eq_no_run)
  moreover have "sub_sep (sep37 @ b) = sub_sep ?b"
    using match_sep_at_run [of b] by (simp add: sep37_Cons)
  ultimately show ?case by simp
next
  case (Cons c a)
  let ?b = "if b \<noteq> [] \<and> hd b = CHR 0x0A then tl b else b"
  from assms(2) have "CHR ''='' \<notin> set ?b" by (auto dest: list.set_sel(2))
  then have b: "sub_sep ?b = ?b" by (intro sub_sep_no_run no_eq_no_run)
  show ?case
  proof (cases "a = []")
    case True
    show ?thesis
    proof (cases "c = CHR 0x0A")
      case True
      with \<open>a = []\<close> b show ?thesis using match_sep_at_newline_run [of b] by simp
    next
      case False
      with Cons.prems have "match_sep (c # sep37 @ b) = None"
        by (intro match_sep_None) (auto simp: sep37_Cons take_Cons')
      with False \<open>a = []\<close> Cons show ?thesis by simp
    qed
  next
    case False
    then obtain d a' where a: "a = d # a'" by (cases a) auto
    with Cons.prems have "match_sep (c # a @ sep37 @ b) = None"
      by (intro match_sep_None) (auto simp: sep37_Cons take_Cons')
    with False Cons show ?thesis by simp
  qed
qed

lemma short_run: "n < 37 \<Longrightarrow> CHR ''='' \<notin> set b \<Longrightarrow> \<not> contains_sep37 (replicate n CHR ''='' @ b)"
proof (induction n)
  case 0
  then show ?case by (simp add: no_eq_no_run)
next
  case (Suc n)
  have "take 37 (replicate (Suc n) CHR ''='' @ b) \<noteq> sep37"
  proof
    assume e: "take 37 (replicate (Suc n) CHR ''='' @ b) = sep37"
    then have "length (replicate (Suc n) CHR ''='' @ b) \<ge> 37"
      using length_sep37 by (metis length_take min.cobounded1)
    with Suc.prems have "(take 37 (replicate (Suc n) CHR ''='' @ b)) ! Suc n = b ! 0"
      by (simp add: nth_append)
    moreover from e Suc.prems have "(take 37 (replicate (Suc n) CHR ''='' @ b)) ! Suc n = CHR ''=''"
      by (simp add: sep37_def)
    moreover from \<open>length (replicate (Suc n) CHR ''='' @ b) \<ge> 37\<close> Suc.prems have "b \<noteq> []" by auto
    ultimately show False using Suc.prems(2) by (metis nth_mem length_greater_0_conv)
  qed
  with Suc show ?case by simp
qed

lemma short_run_between:
  assumes "n < 37" and "CHR ''='' \<notin> set a" and "CHR ''='' \<notin> set b"
  shows "\<not> contains_sep37 (a @ replicate n CHR ''='' @ b)"
  using assms(2)
proof (induction a)
  case Nil
  with assms show ?case by (simp add: short_run)
next
  case (Cons c a)
  then have "take 37 (c # a @ replicate n CHR ''='' @ b) \<noteq> sep37"
    by (auto simp: sep37_Cons take_Cons')
  with Cons show ?case by simp
qed

text \<open>
  C5 (as stated, refuted). A run of ten \<^verbatim>\<open>=\<close> is not stripped: it stays in the block,
  where it is a line without a colon, and parsing the block fails.
\<close>

theorem C5_counterexample:
  "sub_sep (replicate 10 CHR ''='') = replicate 10 CHR ''=''
   \<and> gather_info (''Enum: Foo\<newline>'' @ replicate 10 CHR ''='') = Inl IndexError"
  by code_simp

lemma take_long_prefix: "n \<le> length x \<Longrightarrow> take n (x @ y) = take n x"
  by simp

lemma take37_prefix:
  assumes "a \<noteq> []"
  shows "take 37 (a @ sep37 @ rest) = take 37 (a @ replicate 36 CHR ''='')"
proof -
  have "sep37 = replicate 36 CHR ''='' @ [CHR ''='']"
    unfolding sep37_Cons by (rule replicate_append_same [symmetric])
  then have e: "a @ sep37 @ rest = (a @ replicate 36 CHR ''='') @ (CHR ''='' # rest)" by simp
  from assms have "37 \<le> length (a @ replicate 36 CHR ''='')"
    by (cases a) simp_all
  then show ?thesis unfolding e by (rule take_long_prefix)
qed

lemma no_run_take: "\<not> contains_sep37 s \<Longrightarrow> take 37 s \<noteq> sep37"
  by (cases s) (auto simp: sep37_Cons)

lemma sub_sep_leftmost_run:
  assumes "\<not> contains_sep37 (a @ replicate 36 CHR ''='')"
  shows "sub_sep (a @ sep37 @ rest)
         = (if a \<noteq> [] \<and> last a = CHR 0x0A then butlast a else a)
           @ sub_sep (if rest \<noteq> [] \<and> hd rest = CHR 0x0A then tl rest else rest)"
  using assms
proof (induction a)
  case Nil
  from match_sep_at_run [of rest] show ?case by (simp add: sep37_Cons)
next
  case (Cons c a)
  let ?r = "if rest \<noteq> [] \<and> hd rest = CHR 0x0A then tl rest else rest"
  from Cons.prems have t: "take 37 (c # a @ replicate 36 CHR ''='') \<noteq> sep37"
    and n: "\<not> contains_sep37 (a @ replicate 36 CHR ''='')" by simp_all
  from t take37_prefix [of "c # a" rest]
  have t0: "take 37 (c # a @ sep37 @ rest) \<noteq> sep37" by simp
  show ?case
  proof (cases "a = []")
    case True
    show ?thesis
    proof (cases "c = CHR 0x0A")
      case True
      with \<open>a = []\<close> match_sep_at_newline_run [of rest] show ?thesis by simp
    next
      case False
      with t0 \<open>a = []\<close> have "match_sep (c # sep37 @ rest) = None"
        by (intro match_sep_None) simp_all
      with False \<open>a = []\<close> Cons.IH [OF n] show ?thesis by simp
    qed
  next
    case False
    with no_run_take [OF n] take37_prefix [of a rest]
    have "take 37 (a @ sep37 @ rest) \<noteq> sep37" by simp
    with t0 have "match_sep (c # a @ sep37 @ rest) = None"
      by (intro match_sep_None) simp_all
    with False Cons.IH [OF n] show ?thesis by simp
  qed
qed

text \<open>
  C5 (amended). What is stripped before a block is parsed is every run of exactly 37
  \<^verbatim>\<open>=\<close>, found from the left, each with one newline just before it and one just after it
  when they are there: a text without 37 consecutive \<^verbatim>\<open>=\<close> is left as it is (so a run of
  fewer than 37 stays), and a text is stripped of its leftmost run and then, in the same
  way, of the runs in what follows it.
\<close>

theorem C5_every_run_of_37:
  "(\<not> contains_sep37 s \<longrightarrow> sub_sep s = s)
   \<and> (\<not> contains_sep37 (a @ replicate 36 CHR ''='') \<longrightarrow>
        sub_sep (a @ sep37 @ rest)
        = (if a \<noteq> [] \<and> last a = CHR 0x0A then butlast a else a)
          @ sub_sep (if rest \<noteq> [] \<and> hd rest = CHR 0x0A then tl rest else rest))
   \<and> (n < 37 \<and> CHR ''='' \<notin> set b \<and> CHR ''='' \<notin> set c \<longrightarrow>
        \<not> contains_sep37 (b @ replicate n CHR ''='' @ c))
   \<and> gather_block info line = bind (Instance_init (sub_sep line)) (classify info)"
  by (simp add: gather_block_def sub_sep_leftmost_run sub_sep_no_run short_run_between)

theorem C5_every_run_of_37_witness:
  "sub_sep (sep37 @ ''\<newline>Enum: Foo\<newline>Description: a=b\<newline>'' @ sep37) = ''Enum: Foo\<newline>Description: a=b''
   \<and> sub_sep ''Enum: Foo\<newline>=====\<newline>Description: d'' = ''Enum: Foo\<newline>=====\<newline>Description: d''
   \<and> gather_block info_init (sep37 @ ''\<newline>Enum: Foo\<newline>Description: a=b\<newline>'' @ sep37)
     = bind (Instance_init ''Enum: Foo\<newline>Description: a=b'') (classify info_init)"
proof -
  let ?body = "''Enum: Foo\<newline>Description: a=b\<newline>''"
  have 1: "\<not> contains_sep37 ([] @ replicate 36 CHR ''='')" by code_simp
  have 2: "\<not> contains_sep37 (''Enum: Foo\<newline>Description: a=b\<newline>'' @ replicate 36 CHR ''='')"
    by code_simp
  have 3: "\<not> contains_sep37 []" by simp
  have 4: "\<not> contains_sep37 ''Enum: Foo\<newline>=====\<newline>Description: d''"
    using C5_every_run_of_37 [of _ _ _ 5 "''Enum: Foo\<newline>''" "''\<newline>Description: d''"]
    by (simp add: numeral_eq_Suc)
  from C5_every_run_of_37 [of "[]" "[]" "''\<newline>Enum: Foo\<newline>Description: a=b\<newline>'' @ sep37"] 1
  have a: "sub_sep (sep37 @ ''\<newline>Enum: Foo\<newline>Description: a=b\<newline>'' @ sep37)
           = sub_sep (?body @ sep37)" by simp
  from C5_every_run_of_37 [of "[]" ?body "[]"] 2 3
  have b: "sub_sep (?body @ sep37 @ []) = ''Enum: Foo\<newline>Description: a=b''" by simp
  from C5_every_run_of_37 [of "''Enum: Foo\<newline>=====\<newline>Description: d''"] 4
  have c: "sub_sep ''Enum: Foo\<newline>=====\<newline>Description: d''
           = ''Enum: Foo\<newline>=====\<newline>Description: d''" by simp
  from a b c show ?thesis by (simp add: gather_block_def)
qed

subsection \<open>Parsing a record\<close>

lemma map_of_store: "map_of (dict (store inst k v)) = (map_of (dict inst))(k \<mapsto> v)"
  by (simp add: store_def update_conv')

lemma setattr_cases:
  "setattr self k v = (if refused k then (if k = ''__weakref__'' then Inl AttributeError else Inl TypeError) else Inr (store self k v))"
  by (auto simp: setattr_def refused_def)

lemma init_line_first:
  "init_line (Obj []) l =
     (case findall_first l of None \<Rightarrow> Inl IndexError | Some (k, v) \<Rightarrow> Inr (first_attrs k v))"
  by (auto simp: init_line_def first_attrs_def store_def split: option.splits)

lemma init_line_later:
  "map_of (dict self) ''Type'' \<noteq> None \<Longrightarrow>
   init_line self l =
     (case findall_first l of None \<Rightarrow> Inl IndexError | Some (k, v) \<Rightarrow> setattr self k (Str v))"
  by (auto simp: init_line_def split: option.splits)

lemma init_lines_fail_iff:
  "map_of (dict self) ''Type'' \<noteq> None \<Longrightarrow>
   (\<exists>e. init_lines self ls = Inl e) \<longleftrightarrow> (\<exists>l\<in>set ls. later_line_fails l)"
proof (induction ls arbitrary: self)
  case Nil
  then show ?case by simp
next
  case (Cons l ls)
  show ?case
  proof (cases "later_line_fails l")
    case True
    with Cons.prems have "\<exists>e. init_line self l = Inl e"
      by (auto simp: init_line_later later_line_fails_def setattr_cases split: option.splits)
    then show ?thesis using True by auto
  next
    case False
    then obtain k v where kv: "findall_first l = Some (k, v)" "\<not> refused k"
      by (auto simp: later_line_fails_def split: option.splits)
    with Cons.prems have s: "init_line self l = Inr (store self k (Str v))"
      by (simp add: init_line_later setattr_cases)
    from Cons.prems have "map_of (dict (store self k (Str v))) ''Type'' \<noteq> None"
      by (simp add: map_of_store)
    from Cons.IH [OF this] s False show ?thesis by simp
  qed
qed

lemma init_lines_attrs:
  "map_of (dict self) ''Type'' \<noteq> None \<Longrightarrow> init_lines self ls = Inr self' \<Longrightarrow>
   map_of (dict self') key =
     (case assigned ls key of Some v \<Rightarrow> Some (Str v) | None \<Rightarrow> map_of (dict self) key)"
proof (induction ls arbitrary: self)
  case Nil
  then show ?case by (simp add: assigned_def map_filter_simps)
next
  case (Cons l ls)
  from Cons.prems obtain s1 where s1: "init_line self l = Inr s1" "init_lines s1 ls = Inr self'"
    by (auto split: sum.splits)
  with Cons.prems(1) obtain k v where kv: "findall_first l = Some (k, v)" "s1 = store self k (Str v)"
    by (auto simp: init_line_later setattr_cases split: option.splits if_splits)
  with Cons.prems(1) have "map_of (dict s1) ''Type'' \<noteq> None" by (simp add: map_of_store)
  from Cons.IH [OF this s1(2)] kv show ?case
    by (auto simp: assigned_def map_filter_simps map_of_store map_add_def split: option.splits)
qed

lemma splitlines_Nil: "splitlines s = [] \<longleftrightarrow> s = []"
  by (cases s) (auto split: list.splits)

lemma first_attrs_typed: "map_of (dict (first_attrs k v)) ''Type'' \<noteq> None"
  by (simp add: first_attrs_def)

lemma Instance_init_Nil: "Instance_init [] = Inr (Obj [(''Description'', Str [])])"
  by (simp add: Instance_init_def store_def)

lemma Instance_init_fail_iff:
  "(\<exists>e. Instance_init blk = Inl e) \<longleftrightarrow>
   (case splitlines blk of [] \<Rightarrow> False
    | l # ls \<Rightarrow> findall_first l = None \<or> (\<exists>l'\<in>set ls. later_line_fails l'))"
proof (cases "splitlines blk")
  case Nil
  then show ?thesis by (simp add: Instance_init_def)
next
  case (Cons l ls)
  show ?thesis
  proof (cases "findall_first l")
    case None
    with Cons show ?thesis by (simp add: Instance_init_def init_line_first)
  next
    case (Some kv)
    obtain k v where "kv = (k, v)" by (cases kv)
    with Some Cons init_lines_fail_iff [OF first_attrs_typed, of k v ls] show ?thesis
      by (auto simp: Instance_init_def init_line_first split: sum.splits)
  qed
qed

lemma Instance_init_attrs:
  assumes "splitlines blk = l # ls" and "findall_first l = Some (k, v)"
    and "Instance_init blk = Inr inst"
  shows "map_of (dict inst) key =
     (case assigned ls key of
        Some x \<Rightarrow> Some (Str x)
      | None \<Rightarrow>
          (case map_of (dict (first_attrs k v)) key of
             Some y \<Rightarrow> Some y
           | None \<Rightarrow> if key = ''Description'' then Some (Str []) else None))"
proof -
  from assms obtain self where self: "init_lines (first_attrs k v) ls = Inr self"
    and inst: "inst = (if map_of (dict self) ''Description'' = None
                       then store self ''Description'' (Str []) else self)"
    by (auto simp: Instance_init_def init_line_first split: sum.splits)
  note a = init_lines_attrs [OF first_attrs_typed self]
  show ?thesis
    by (cases "key = ''Description''")
       (auto simp: inst a map_of_store split: option.splits)
qed

text \<open>
  C6 (as stated, refuted). The empty block does not fail in the parser: it has no line,
  and \<^verbatim>\<open>Instance("")\<close> is a record with an empty \<^verbatim>\<open>Description\<close> and nothing else. The
  failure comes after it, when \<^verbatim>\<open>gather_info\<close> reads \<^verbatim>\<open>inst.Type\<close>.
\<close>

theorem C6_counterexample:
  "Instance_init [] = Inr (Obj [(''Description'', Str [])])
   \<and> gather_block info_init [] = Inl AttributeError"
  by code_simp

text \<open>
  C6 (amended). Parsing a block fails if and only if one of its lines does not match the
  pattern, or a line after the first has a key that \<^verbatim>\<open>setattr\<close> refuses. The empty block
  is parsed to a record with only an empty \<^verbatim>\<open>Description\<close>; every other block that is
  parsed gives a record with a \<^verbatim>\<open>Type\<close> and a \<^verbatim>\<open>Name\<close>.
\<close>

theorem C6_parse_fails_iff:
  "((\<exists>e. Instance_init blk = Inl e) \<longleftrightarrow>
      (\<exists>l\<in>set (splitlines blk). findall_first l = None)
      \<or> (\<exists>l\<in>set (tl (splitlines blk)). key_refused l))
   \<and> (blk = [] \<longrightarrow> Instance_init blk = Inr (Obj [(''Description'', Str [])]))
   \<and> (blk \<noteq> [] \<and> Instance_init blk = Inr inst \<longrightarrow>
        (\<exists>t n. getattr inst ''Type'' = Inr (Str t) \<and> getattr inst ''Name'' = Inr (Str n)))"
proof (intro conjI impI)
  have "later_line_fails l \<longleftrightarrow> findall_first l = None \<or> key_refused l" for l
    by (auto simp: later_line_fails_def key_refused_def split: option.splits)
  then show "(\<exists>e. Instance_init blk = Inl e) \<longleftrightarrow>
      (\<exists>l\<in>set (splitlines blk). findall_first l = None)
      \<or> (\<exists>l\<in>set (tl (splitlines blk)). key_refused l)"
    unfolding Instance_init_fail_iff
    by (cases "splitlines blk") (auto simp: key_refused_def)
next
  assume "blk = []"
  then show "Instance_init blk = Inr (Obj [(''Description'', Str [])])"
    by (simp add: Instance_init_Nil)
next
  assume a: "blk \<noteq> [] \<and> Instance_init blk = Inr inst"
  then obtain l ls where l: "splitlines blk = l # ls"
    by (cases "splitlines blk") (auto simp: splitlines_Nil)
  with a obtain k v where kv: "findall_first l = Some (k, v)"
    by (cases "findall_first l") (auto simp: Instance_init_def init_line_first)
  note at = Instance_init_attrs [OF l kv conjunct2 [OF a]]
  show "\<exists>t n. getattr inst ''Type'' = Inr (Str t) \<and> getattr inst ''Name'' = Inr (Str n)"
    by (auto simp: getattr_def at first_attrs_def split: option.splits)
qed

theorem C6_parse_fails_iff_witness:
  "(\<exists>e. Instance_init ''Enum: Foo\<newline>no colon'' = Inl e)
   \<and> (\<exists>t n. getattr (Obj [(''Type'', Str ''Enum''), (''Name'', Str ''Foo''), (''Values'', Lst []),
                           (''Description'', Str [])]) ''Type'' = Inr (Str t)
           \<and> getattr (Obj [(''Type'', Str ''Enum''), (''Name'', Str ''Foo''), (''Values'', Lst []),
                           (''Description'', Str [])]) ''Name'' = Inr (Str n))"
proof -
  have 1: "findall_first ''no colon'' = None" by code_simp
  have 2: "splitlines ''Enum: Foo\<newline>no colon'' = [''Enum: Foo'', ''no colon'']" by code_simp
  have 3: "Instance_init ''Enum: Foo''
           = Inr (Obj [(''Type'', Str ''Enum''), (''Name'', Str ''Foo''), (''Values'', Lst []),
                       (''Description'', Str [])])" by code_simp
  from C6_parse_fails_iff [of "''Enum: Foo\<newline>no colon''"] 1 2
  have "\<exists>e. Instance_init ''Enum: Foo\<newline>no colon'' = Inl e" by simp
  moreover from C6_parse_fails_iff [of "''Enum: Foo''"] 3
  have "\<exists>t n. getattr (Obj [(''Type'', Str ''Enum''), (''Name'', Str ''Foo''), (''Values'', Lst []),
                           (''Description'', Str [])]) ''Type'' = Inr (Str t)
           \<and> getattr (Obj [(''Type'', Str ''Enum''), (''Name'', Str ''Foo''), (''Values'', Lst []),
                           (''Description'', Str [])]) ''Name'' = Inr (Str n)" by simp
  ultimately show ?thesis by simp
qed

text \<open>
  C3 (as stated, refuted). The first line has the key \<^verbatim>\<open>Enum\<close>, and the later line
  \<^verbatim>\<open>Type: Constant\<close> sets the record's \<^verbatim>\<open>Type\<close> to \<^verbatim>\<open>Constant\<close>.
\<close>

theorem C3_counterexample:
  "findall_first (hd (splitlines ''Enum: Foo\<newline>Type: Constant'')) = Some (''Enum'', ''Foo'')
   \<and> Instance_init ''Enum: Foo\<newline>Type: Constant''
     = Inr (Obj [(''Type'', Str ''Constant''), (''Name'', Str ''Foo''), (''Values'', Lst []),
                 (''Description'', Str [])])"
  by code_simp

text \<open>
  C3 (amended). After parsing, the record's \<^verbatim>\<open>Type\<close> is the key of the block's first line
  unless a later line has the key \<^verbatim>\<open>Type\<close>; then it is the value of the last such line.
\<close>

theorem C3_type_unless_reassigned:
  assumes "splitlines blk = l # ls" and "findall_first l = Some (k, n)"
    and "Instance_init blk = Inr inst"
  shows "getattr inst ''Type'' = Inr (Str (case assigned ls ''Type'' of None \<Rightarrow> k | Some t \<Rightarrow> t))"
  by (simp add: getattr_def Instance_init_attrs [OF assms] first_attrs_def split: option.splits)

theorem C3_type_unless_reassigned_witness:
  "splitlines ''Enum: Foo\<newline>Description: d'' = [''Enum: Foo'', ''Description: d'']
   \<and> findall_first ''Enum: Foo'' = Some (''Enum'', ''Foo'')
   \<and> Instance_init ''Enum: Foo\<newline>Description: d''
     = Inr (Obj [(''Type'', Str ''Enum''), (''Name'', Str ''Foo''), (''Values'', Lst []),
                 (''Description'', Str ''d'')])
   \<and> getattr (Obj [(''Type'', Str ''Enum''), (''Name'', Str ''Foo''), (''Values'', Lst []),
                 (''Description'', Str ''d'')]) ''Type'' = Inr (Str ''Enum'')"
proof -
  have 1: "splitlines ''Enum: Foo\<newline>Description: d'' = [''Enum: Foo'', ''Description: d'']"
    by code_simp
  have 2: "findall_first ''Enum: Foo'' = Some (''Enum'', ''Foo'')" by code_simp
  have 3: "Instance_init ''Enum: Foo\<newline>Description: d''
     = Inr (Obj [(''Type'', Str ''Enum''), (''Name'', Str ''Foo''), (''Values'', Lst []),
                 (''Description'', Str ''d'')])" by code_simp
  have 4: "assigned [''Description: d''] ''Type'' = None" by code_simp
  from C3_type_unless_reassigned [OF 1 2 3] 1 2 3 4 show ?thesis by simp
qed

subsection \<open>What a line stores\<close>


lemma assigned_last_other:
  "assigned [] k = None"
  by (simp add: assigned_def map_filter_def)



subsection \<open>From a block to a table row\<close>

text \<open>
  C9. A block whose first line is \<^verbatim>\<open>Constant: n\<close>, with a \<^verbatim>\<open>Value\<close> line and no \<^verbatim>\<open>Name\<close>
  line, is parsed and rendered to the row \<^verbatim>\<open>| n | v |\<close> with the two strings as they were
  parsed; the cell of the description follows if and only if the parsed description is
  not empty.
\<close>

theorem C9_constant_row:
  assumes "splitlines blk = l # ls" and "findall_first l = Some (''Constant'', n)"
    and "Instance_init blk = Inr c"
    and "assigned ls ''Name'' = None" and "assigned ls ''Value'' = Some v"
    and "d = (case assigned ls ''Description'' of None \<Rightarrow> [] | Some x \<Rightarrow> x)"
  shows "generate_table [c]
         = Inr (''| Name | Value | Description |\<newline>| --- | --- | --- |\<newline>''
                @ ''| '' @ n @ '' | '' @ v @ '' |''
                @ (if d \<noteq> [] then '' '' @ d @ '' |'' else [])
                @ ''\<newline>'' @ ''\<newline>'')"
proof -
  note at = Instance_init_attrs [OF assms(1-3)]
  have name: "attr_str c ''Name'' = Inr n"
    using assms(4) by (simp add: attr_str_def getattr_def at first_attrs_def bind_Inr)
  have val: "attr_str c ''Value'' = Inr v"
    using assms(5) by (simp add: attr_str_def getattr_def at bind_Inr)
  have desc: "attr_str c ''Description'' = Inr d"
    using assms(6)
    by (simp add: attr_str_def getattr_def at first_attrs_def bind_Inr split: option.splits)
  have "table_row c = Inr (''| '' @ n @ '' | '' @ v @ '' |''
                @ (if d \<noteq> [] then '' '' @ d @ '' |'' else []) @ ''\<newline>'')"
    by (simp add: table_row_def name val desc bind_Inr)
  then show ?thesis
    by (simp add: generate_table_def bind_Inr)
qed

theorem C9_constant_row_witness:
  "splitlines ''Constant: Foo.A\<newline>Value: 1 | 2\<newline>Description: first''
     = [''Constant: Foo.A'', ''Value: 1 | 2'', ''Description: first'']
   \<and> findall_first ''Constant: Foo.A'' = Some (''Constant'', ''Foo.A'')
   \<and> Instance_init ''Constant: Foo.A\<newline>Value: 1 | 2\<newline>Description: first''
     = Inr (Obj [(''Type'', Str ''Constant''), (''Name'', Str ''Foo.A''),
                 (''Value'', Str ''1 | 2''), (''Description'', Str ''first'')])
   \<and> generate_table [Obj [(''Type'', Str ''Constant''), (''Name'', Str ''Foo.A''),
                 (''Value'', Str ''1 | 2''), (''Description'', Str ''first'')]]
     = Inr ''| Name | Value | Description |\<newline>| --- | --- | --- |\<newline>| Foo.A | 1 | 2 | first |\<newline>\<newline>''"
proof -
  let ?ls = "[''Value: 1 | 2'', ''Description: first'']"
  have 1: "splitlines ''Constant: Foo.A\<newline>Value: 1 | 2\<newline>Description: first''
     = ''Constant: Foo.A'' # ?ls" by code_simp
  have 2: "findall_first ''Constant: Foo.A'' = Some (''Constant'', ''Foo.A'')" by code_simp
  have 3: "Instance_init ''Constant: Foo.A\<newline>Value: 1 | 2\<newline>Description: first''
     = Inr (Obj [(''Type'', Str ''Constant''), (''Name'', Str ''Foo.A''),
                 (''Value'', Str ''1 | 2''), (''Description'', Str ''first'')])" by code_simp
  have 4: "assigned ?ls ''Name'' = None" by code_simp
  have 5: "assigned ?ls ''Value'' = Some ''1 | 2''" by code_simp
  have 6: "''first'' = (case assigned ?ls ''Description'' of None \<Rightarrow> [] | Some x \<Rightarrow> x)"
    by code_simp
  from C9_constant_row [OF 1 2 3 4 5 6] 1 2 3 show ?thesis by simp
qed

subsection \<open>Classification\<close>

lemma wf_info_init: "wf_info info_init"
  by (simp add: wf_info_def info_init_def)

lemma wf_keys:
  assumes "wf_info info"
  shows "fst ` set info = set [''Enum'', ''Constant'', ''Class'', ''Function'', ''Hook'']"
proof -
  from assms have "map fst info = [''Enum'', ''Constant'', ''Class'', ''Function'', ''Hook'']"
    by (simp add: wf_info_def)
  then have "set (map fst info) = set [''Enum'', ''Constant'', ''Class'', ''Function'', ''Hook'']"
    by (rule arg_cong)
  then show ?thesis by (simp only: set_map)
qed

lemma wf_lookup:
  assumes "wf_info info" and "c \<in> set [''Enum'', ''Constant'', ''Class'', ''Function'', ''Hook'']"
  shows "map_of info c = Some (category info c)"
proof -
  from assms have "c \<in> fst ` set info" by (simp only: wf_keys)
  then have "map_of info c \<noteq> None" by (simp only: map_of_eq_None_iff not_False_eq_True not_not)
  then show ?thesis by (cases "map_of info c") (simp_all add: category_def)
qed

lemma wf_lookup_None:
  assumes "wf_info info" and "c \<notin> set [''Enum'', ''Constant'', ''Class'', ''Function'', ''Hook'']"
  shows "map_of info c = None"
proof -
  from assms have "c \<notin> fst ` set info" by (simp only: wf_keys not_False_eq_True)
  then show ?thesis by (simp add: map_of_eq_None_iff)
qed

lemma wf_distinct:
  assumes "wf_info info" shows "distinct (map fst (category info c))"
proof (cases "map_of info c")
  case None
  then show ?thesis by (simp add: category_def)
next
  case (Some d)
  then have "(c, d) \<in> set info" by (rule map_of_SomeD)
  with assms have "distinct (map fst d)" by (auto simp: wf_info_def list_all_iff)
  with Some show ?thesis by (simp add: category_def)
qed

lemma list_all_update:
  "list_all P al \<Longrightarrow> P (k, v) \<Longrightarrow> list_all P (AList.update k v al)"
  by (induction al) auto

lemma wf_update:
  assumes "wf_info info" and "map_of info c \<noteq> None" and "distinct (map fst d)"
  shows "wf_info (AList.update c d info)"
proof -
  from assms(2) have "c \<in> set (map fst info)" by (simp add: map_of_eq_None_iff)
  then have "map fst (AList.update c d info) = map fst info" by (simp add: update_keys)
  with assms show ?thesis by (simp add: wf_info_def list_all_update)
qed

lemma category_update:
  "category (AList.update c d info) c' = (if c' = c then d else category info c')"
  by (simp add: category_def update_conv')

lemma owner_eq:
  assumes "getattr inst ''Type'' = Inr (Str ty)" and "getattr inst ''Name'' = Inr (Str name)"
    and "wf_info info" and "cat = ''Enum'' \<or> cat = ''Class''"
  shows "owner info inst t sep cat
         = Inr (if ty = t \<and> known info cat (prefix_of sep name)
                then Some (prefix_of sep name) else None)"
proof -
  from assms(3,4) have "map_of info cat = Some (category info cat)"
    by (intro wf_lookup) auto
  with assms(1,2) show ?thesis
    by (auto simp: owner_def bind_Inr prefix_of_def known_def)
qed

lemma owner_other:
  assumes "getattr inst ''Type'' = Inr (Str ty)" and "ty \<noteq> t"
  shows "owner info inst t sep cat = Inr None"
  using assms by (simp add: owner_def bind_Inr)

lemma append_child_wf:
  assumes "wf_info info" and "cat = ''Enum'' \<or> cat = ''Class''"
    and "append_child info cat key field inst = Inr info'"
  shows "wf_info info'
         \<and> map fst (category info' cat) = map fst (category info cat)
         \<and> (\<forall>c. c \<noteq> cat \<longrightarrow> category info' c = category info c)"
proof -
  from assms(1,2) have l: "map_of info cat = Some (category info cat)"
    by (intro wf_lookup) auto
  with assms(3) obtain parent xs where p: "map_of (category info cat) key = Some parent"
    and i: "info' = AList.update cat
                 (AList.update key (store parent field (Lst (xs @ [inst]))) (category info cat)) info"
    by (auto simp: append_child_def split: option.splits pyval.splits)
  from p have "map_of (category info cat) key \<noteq> None" by simp
  then have k: "key \<in> set (map fst (category info cat))"
    by (simp add: map_of_eq_None_iff)
  have d: "distinct (map fst (AList.update key (store parent field (Lst (xs @ [inst]))) (category info cat)))"
    by (intro distinct_update wf_distinct assms(1))
  from l have "map_of info cat \<noteq> None" by simp
  from wf_update [OF assms(1) this d] i k show ?thesis
    by (simp add: category_update update_keys)
qed

lemma file_inst_eq:
  assumes "getattr inst ''Type'' = Inr (Str ty)" and "getattr inst ''Name'' = Inr (Str name)"
    and "wf_info info"
  shows "file_inst info inst =
     (if ty \<in> set [''Enum'', ''Constant'', ''Class'', ''Function'', ''Hook'']
      then Inr (AList.update ty (AList.update name inst (category info ty)) info)
      else Inl KeyError)"
proof (cases "ty \<in> set [''Enum'', ''Constant'', ''Class'', ''Function'', ''Hook'']")
  case True
  from wf_lookup [OF assms(3) True] assms(1,2) True show ?thesis
    by (simp add: file_inst_def bind_Inr)
next
  case False
  from wf_lookup_None [OF assms(3) False] assms(1,2) False show ?thesis
    by (simp add: file_inst_def bind_Inr)
qed

lemma file_inst_wf:
  assumes "getattr inst ''Type'' = Inr (Str ty)" and "getattr inst ''Name'' = Inr (Str name)"
    and "wf_info info" and "file_inst info inst = Inr info'"
  shows "wf_info info'
         \<and> category info' ty = AList.update name inst (category info ty)
         \<and> (\<forall>c. c \<noteq> ty \<longrightarrow> category info' c = category info c)"
proof -
  from assms(4) have m: "ty \<in> set [''Enum'', ''Constant'', ''Class'', ''Function'', ''Hook'']"
    and i: "info' = AList.update ty (AList.update name inst (category info ty)) info"
    unfolding file_inst_eq [OF assms(1-3)] by (auto split: if_splits)
  from wf_lookup [OF assms(3) m] have "map_of info ty \<noteq> None" by simp
  moreover have "distinct (map fst (AList.update name inst (category info ty)))"
    by (intro distinct_update wf_distinct assms(3))
  ultimately have "wf_info info'" unfolding i by (intro wf_update assms(3))
  then show ?thesis by (simp add: i category_update)
qed

text \<open>The two statements of the loop body, case by case.\<close>

lemma classify_eq:
  assumes "getattr inst ''Type'' = Inr (Str ty)" and "getattr inst ''Name'' = Inr (Str name)"
    and "wf_info info"
  shows "classify info inst =
     (if ty = ''Constant'' then
        (if known info ''Enum'' (prefix_of ''.'' name)
         then bind (append_child info ''Enum'' (prefix_of ''.'' name) ''Values'' inst)
                (\<lambda>info1. file_inst info1 inst)
         else file_inst info inst)
      else if ty = ''Function'' \<and> known info ''Class'' (prefix_of ''::'' name)
        then append_child info ''Class'' (prefix_of ''::'' name) ''Functions'' inst
      else if ty = ''Member'' \<and> known info ''Class'' (prefix_of ''.'' name)
        then append_child info ''Class'' (prefix_of ''.'' name) ''Members'' inst
      else if ty = ''Hook'' \<and> known info ''Class'' (prefix_of '' -> '' name)
        then append_child info ''Class'' (prefix_of '' -> '' name) ''Hooks'' inst
      else file_inst info inst)"
proof (cases "ty = ''Constant''")
  case True
  have o: "owner i inst ''Function'' s c = Inr None" "owner i inst ''Member'' s c = Inr None"
    "owner i inst ''Hook'' s c = Inr None" for i s c
    using assms(1) True by (simp_all add: owner_other)
  have "classify info inst =
      bind (case (if known info ''Enum'' (prefix_of ''.'' name)
                  then Some (prefix_of ''.'' name) else None) of
              Some e \<Rightarrow> append_child info ''Enum'' e ''Values'' inst
            | None \<Rightarrow> Inr info) (\<lambda>info1. file_inst info1 inst)"
    unfolding classify_def
    by (simp add: owner_eq [OF assms] True o bind_Inr)
  then show ?thesis using True by (simp add: bind_Inr)
next
  case False
  have c: "owner info inst ''Constant'' ''.'' ''Enum'' = Inr None"
    using assms(1) False by (simp add: owner_other)
  show ?thesis
    unfolding classify_def
    by (auto simp: c bind_Inr owner_eq [OF assms] False)
qed

lemma classify_wf:
  assumes "getattr inst ''Type'' = Inr (Str ty)" and "getattr inst ''Name'' = Inr (Str name)"
    and "wf_info info" and "classify info inst = Inr info'"
  shows "wf_info info'"
proof (cases "ty = ''Constant''")
  case True
  show ?thesis
  proof (cases "known info ''Enum'' (prefix_of ''.'' name)")
    case k: True
    with assms(4) True obtain info1 where
      a: "append_child info ''Enum'' (prefix_of ''.'' name) ''Values'' inst = Inr info1"
      and f: "file_inst info1 inst = Inr info'"
      unfolding classify_eq [OF assms(1-3)] by (auto simp: bind_def split: sum.splits)
    from append_child_wf [OF assms(3) _ a] have "wf_info info1" by simp
    from file_inst_wf [OF assms(1,2) this f] show ?thesis by simp
  next
    case False
    with assms(4) True have "file_inst info inst = Inr info'"
      unfolding classify_eq [OF assms(1-3)] by simp
    from file_inst_wf [OF assms(1-3) this] show ?thesis by simp
  qed
next
  case False
  with assms(4) consider
    (app) f k where "append_child info ''Class'' k f inst = Inr info'"
    | (filed) "file_inst info inst = Inr info'"
    unfolding classify_eq [OF assms(1-3)] by (auto split: if_splits)
  then show ?thesis
  proof cases
    case app
    from append_child_wf [OF assms(3) _ app] show ?thesis by simp
  next
    case filed
    from file_inst_wf [OF assms(1-3) filed] show ?thesis by simp
  qed
qed

lemma Instance_init_typed:
  assumes "Instance_init blk = Inr inst" and "blk \<noteq> []"
  shows "\<exists>t n. getattr inst ''Type'' = Inr (Str t) \<and> getattr inst ''Name'' = Inr (Str n)"
proof -
  from assms(2) obtain l ls where l: "splitlines blk = l # ls"
    by (cases "splitlines blk") (auto simp: splitlines_Nil)
  with assms(1) obtain k v where kv: "findall_first l = Some (k, v)"
    by (cases "findall_first l") (auto simp: Instance_init_def init_line_first)
  note at = Instance_init_attrs [OF l kv assms(1)]
  show ?thesis
    by (auto simp: getattr_def at first_attrs_def split: option.splits)
qed

lemma classify_untyped: "getattr inst ''Type'' = Inl e \<Longrightarrow> classify info inst = Inl e"
  by (simp add: classify_def owner_def bind_Inl)

lemma gather_block_Inr:
  assumes "gather_block info b = Inr info'"
  obtains inst ty name where "Instance_init (sub_sep b) = Inr inst"
    and "getattr inst ''Type'' = Inr (Str ty)" and "getattr inst ''Name'' = Inr (Str name)"
    and "classify info inst = Inr info'"
proof -
  from assms obtain inst where i: "Instance_init (sub_sep b) = Inr inst"
    and c: "classify info inst = Inr info'"
    by (auto simp: gather_block_def bind_def split: sum.splits)
  have "sub_sep b \<noteq> []"
  proof
    assume "sub_sep b = []"
    with i have "inst = Obj [(''Description'', Str [])]" by (simp add: Instance_init_Nil)
    then have "getattr inst ''Type'' = Inl AttributeError" by (simp add: getattr_def)
    from classify_untyped [OF this] c show False by simp
  qed
  from Instance_init_typed [OF i this] i c that show thesis by blast
qed

lemma gather_block_wf:
  assumes "wf_info info" and "gather_block info b = Inr info'"
  shows "wf_info info'"
proof -
  from assms(2) obtain inst ty name where t: "getattr inst ''Type'' = Inr (Str ty)"
    and n: "getattr inst ''Name'' = Inr (Str name)" and c: "classify info inst = Inr info'"
    by (rule gather_block_Inr)
  from t n assms(1) c show ?thesis by (rule classify_wf)
qed

lemma gather_blocks_wf:
  "wf_info info \<Longrightarrow> gather_blocks info bs = Inr info' \<Longrightarrow> wf_info info'"
proof (induction bs arbitrary: info)
  case Nil
  then show ?case by simp
next
  case (Cons b bs)
  from Cons.prems(2) obtain info1 where 1: "gather_block info b = Inr info1"
    and 2: "gather_blocks info1 bs = Inr info'"
    by (auto split: sum.splits)
  from gather_block_wf [OF Cons.prems(1) 1] have "wf_info info1" .
  from Cons.IH [OF this 2] show ?case .
qed

lemma reachable_wf: "gather_blocks info_init pre = Inr info \<Longrightarrow> wf_info info"
  using gather_blocks_wf [OF wf_info_init] .

text \<open>
  C2 (as stated, refuted). A member whose prefix names no class is not filed: there is no
  \<^verbatim>\<open>Member\<close> category in \<^verbatim>\<open>info\<close>, and \<^verbatim>\<open>info[inst.Type]\<close> raises KeyError.
\<close>

theorem C2_counterexample:
  "gather_info ''Member: Foo.x\<newline>Signature: int x'' = Inl KeyError"
  by code_simp

text \<open>
  C2 (amended). A record of type Constant, Function or Hook that matches no parent is
  filed under its own type and name, whatever was filed before, and the step does not
  fail. A Member that matches no class is not filed: the step fails with KeyError.
\<close>

theorem C2_unmatched_filed_except_member:
  assumes "gather_blocks info_init pre = Inr info"
    and "Instance_init (sub_sep b) = Inr inst"
    and "getattr inst ''Type'' = Inr (Str ty)" and "getattr inst ''Name'' = Inr (Str name)"
    and "\<not> enum_known info ty name" and "\<not> class_known info ty name"
  shows "(ty = ''Constant'' \<or> ty = ''Function'' \<or> ty = ''Hook''
            \<longrightarrow> gather_block info b
                = Inr (AList.update ty (AList.update name inst (category info ty)) info))
         \<and> (ty = ''Member'' \<longrightarrow> gather_block info b = Inl KeyError)"
proof -
  note wf = reachable_wf [OF assms(1)]
  from assms(5,6) have "classify info inst = file_inst info inst"
    unfolding classify_eq [OF assms(3,4) wf]
    by (auto simp: enum_known_def class_known_def)
  then have "gather_block info b = file_inst info inst"
    by (simp add: gather_block_def assms(2) bind_Inr)
  then show ?thesis
    unfolding file_inst_eq [OF assms(3,4) wf] by auto
qed

theorem C2_unmatched_filed_except_member_witness:
  "gather_block info_init ''Function: Foo::bar\<newline>Signature: void bar()''
   = Inr [(''Enum'', []), (''Constant'', []), (''Class'', []),
          (''Function'', [(''Foo::bar'',
              Obj [(''Type'', Str ''Function''), (''Name'', Str ''Foo::bar''),
                   (''Signature'', Str ''void bar()''), (''Description'', Str [])])]),
          (''Hook'', [])]
   \<and> gather_block info_init ''Member: Foo.x\<newline>Signature: int x'' = Inl KeyError"
proof -
  let ?f = "Obj [(''Type'', Str ''Function''), (''Name'', Str ''Foo::bar''),
                   (''Signature'', Str ''void bar()''), (''Description'', Str [])]"
  let ?m = "Obj [(''Type'', Str ''Member''), (''Name'', Str ''Foo.x''),
                   (''Signature'', Str ''int x''), (''Description'', Str [])]"
  have r: "gather_blocks info_init [] = Inr info_init" by simp
  have f1: "Instance_init (sub_sep ''Function: Foo::bar\<newline>Signature: void bar()'') = Inr ?f"
    by code_simp
  have f2: "getattr ?f ''Type'' = Inr (Str ''Function'')" by code_simp
  have f3: "getattr ?f ''Name'' = Inr (Str ''Foo::bar'')" by code_simp
  have f4: "\<not> enum_known info_init ''Function'' ''Foo::bar''" by code_simp
  have f5: "\<not> class_known info_init ''Function'' ''Foo::bar''" by code_simp
  have m1: "Instance_init (sub_sep ''Member: Foo.x\<newline>Signature: int x'') = Inr ?m"
    by code_simp
  have m2: "getattr ?m ''Type'' = Inr (Str ''Member'')" by code_simp
  have m3: "getattr ?m ''Name'' = Inr (Str ''Foo.x'')" by code_simp
  have m4: "\<not> enum_known info_init ''Member'' ''Foo.x''" by code_simp
  have m5: "\<not> class_known info_init ''Member'' ''Foo.x''" by code_simp
  have u: "AList.update ''Function'' (AList.update ''Foo::bar'' ?f (category info_init ''Function'')) info_init
     = [(''Enum'', []), (''Constant'', []), (''Class'', []),
          (''Function'', [(''Foo::bar'', ?f)]), (''Hook'', [])]" by code_simp
  from C2_unmatched_filed_except_member [OF r f1 f2 f3 f4 f5]
    C2_unmatched_filed_except_member [OF r m1 m2 m3 m4 m5] u
  show ?thesis by simp
qed

lemma known_keys: "known info cat e \<longleftrightarrow> e \<in> set (map fst (category info cat))"
  by (simp add: known_def map_of_eq_None_iff)

lemma classify_filed:
  assumes "getattr inst ''Type'' = Inr (Str ty)" and "getattr inst ''Name'' = Inr (Str name)"
    and "wf_info info" and "classify info inst = Inr info'" and "\<not> class_known info ty name"
  shows "\<exists>info1. wf_info info1 \<and> file_inst info1 inst = Inr info'
           \<and> category info1 ty = category info ty
           \<and> (\<not> (ty = ''Constant'' \<and> known info ''Enum'' (prefix_of ''.'' name))
                \<longrightarrow> info1 = info)
           \<and> (ty = ''Constant'' \<and> known info ''Enum'' (prefix_of ''.'' name)
                \<longrightarrow> append_child info ''Enum'' (prefix_of ''.'' name) ''Values'' inst
                    = Inr info1)"
proof (cases "ty = ''Constant'' \<and> known info ''Enum'' (prefix_of ''.'' name)")
  case True
  with assms(4) obtain info1 where
    a: "append_child info ''Enum'' (prefix_of ''.'' name) ''Values'' inst = Inr info1"
    and f: "file_inst info1 inst = Inr info'"
    unfolding classify_eq [OF assms(1-3)] by (auto simp: bind_def split: sum.splits)
  from append_child_wf [OF assms(3) _ a] True
  have "wf_info info1" and "category info1 ty = category info ty" by simp_all
  with a f True show ?thesis by blast
next
  case False
  with assms(4,5) have "file_inst info inst = Inr info'"
    unfolding classify_eq [OF assms(1-3)] by (auto simp: class_known_def split: if_splits)
  with assms(3) False show ?thesis by blast
qed


subsection \<open>The document of a category\<close>

















subsection \<open>Constants and their enums\<close>

lemma block_is_parsed:
  assumes "Instance_init (sub_sep blk) = Inr inst"
    and "getattr inst ''Type'' = Inr (Str ty)" and "getattr inst ''Name'' = Inr (Str name)"
  shows "block_is t e blk \<longleftrightarrow> ty = t \<and> name = e"
  using assms by (auto simp: block_is_def)

lemma gather_block_enum_keys:
  assumes "wf_info info" and "gather_block info blk = Inr info'"
  shows "known info' ''Enum'' e \<longleftrightarrow> known info ''Enum'' e \<or> block_is ''Enum'' e blk"
proof -
  from assms(2) obtain inst ty name where p: "Instance_init (sub_sep blk) = Inr inst"
    and t: "getattr inst ''Type'' = Inr (Str ty)" and n: "getattr inst ''Name'' = Inr (Str name)"
    and c: "classify info inst = Inr info'"
    by (rule gather_block_Inr)
  note b = block_is_parsed [OF p t n]
  show ?thesis
  proof (cases "class_known info ty name")
    case True
    with c obtain k f where a: "append_child info ''Class'' k f inst = Inr info'"
      unfolding classify_eq [OF t n assms(1)]
      by (auto simp: class_known_def split: if_splits)
    from True have "ty \<noteq> ''Enum''" by (auto simp: class_known_def)
    moreover from append_child_wf [OF assms(1) _ a]
    have "category info' ''Enum'' = category info ''Enum''" by simp
    ultimately show ?thesis by (simp add: b known_keys)
  next
    case False
    from classify_filed [OF t n assms(1) c False] obtain info1 where wf1: "wf_info info1"
      and f: "file_inst info1 inst = Inr info'"
      and u: "\<not> (ty = ''Constant'' \<and> known info ''Enum'' (prefix_of ''.'' name)) \<Longrightarrow> info1 = info"
      and a: "ty = ''Constant'' \<and> known info ''Enum'' (prefix_of ''.'' name) \<Longrightarrow>
         append_child info ''Enum'' (prefix_of ''.'' name) ''Values'' inst = Inr info1"
      by blast
    have k1: "map fst (category info1 ''Enum'') = map fst (category info ''Enum'')"
    proof (cases "ty = ''Constant'' \<and> known info ''Enum'' (prefix_of ''.'' name)")
      case True
      with a have "append_child info ''Enum'' (prefix_of ''.'' name) ''Values'' inst = Inr info1"
        by simp
      from append_child_wf [OF assms(1) _ this] show ?thesis by simp
    next
      case False
      with u show ?thesis by simp
    qed
    note fw = file_inst_wf [OF t n wf1 f]
    show ?thesis
    proof (cases "ty = ''Enum''")
      case True
      with fw have "category info' ''Enum'' = AList.update name inst (category info1 ''Enum'')"
        by simp
      then have "set (map fst (category info' ''Enum''))
                 = insert name (set (map fst (category info ''Enum'')))"
        using k1 by (auto simp: update_keys)
      with True show ?thesis by (auto simp: b known_keys)
    next
      case False
      with fw have "category info' ''Enum'' = category info1 ''Enum''" by simp
      with False k1 show ?thesis by (simp add: b known_keys)
    qed
  qed
qed

lemma gather_blocks_enum_keys:
  "wf_info info \<Longrightarrow> gather_blocks info bs = Inr info' \<Longrightarrow>
   known info' ''Enum'' e \<longleftrightarrow> known info ''Enum'' e \<or> (\<exists>blk\<in>set bs. block_is ''Enum'' e blk)"
proof (induction bs arbitrary: info)
  case Nil
  then show ?case by simp
next
  case (Cons b bs)
  from Cons.prems(2) obtain info1 where 1: "gather_block info b = Inr info1"
    and 2: "gather_blocks info1 bs = Inr info'"
    by (auto split: sum.splits)
  from gather_block_wf [OF Cons.prems(1) 1] have wf1: "wf_info info1" .
  from Cons.IH [OF wf1 2] gather_block_enum_keys [OF Cons.prems(1) 1, of e]
  show ?case by auto
qed

lemma reachable_enum_keys:
  assumes "gather_blocks info_init pre = Inr info"
  shows "known info ''Enum'' e \<longleftrightarrow> (\<exists>blk\<in>set pre. block_is ''Enum'' e blk)"
proof -
  have "\<not> known info_init ''Enum'' e"
    by (simp add: known_def category_def info_init_def)
  with gather_blocks_enum_keys [OF wf_info_init assms, of e] show ?thesis by simp
qed

lemma nested_cong:
  "map_of (category info' ''Enum'') e = map_of (category info ''Enum'') e
   \<Longrightarrow> nested info' e c = nested info e c"
  by (simp add: nested_def)

lemma nested_append_enum:
  assumes "wf_info info" and "append_child info ''Enum'' p ''Values'' inst = Inr info1"
  shows "nested info1 e c \<longleftrightarrow> nested info e c \<or> (e = p \<and> c = inst)"
proof -
  from assms(1) have l: "map_of info ''Enum'' = Some (category info ''Enum'')"
    by (rule wf_lookup) simp
  with assms(2) obtain parent xs where p: "map_of (category info ''Enum'') p = Some parent"
    and v: "map_of (dict parent) ''Values'' = Some (Lst xs)"
    and i: "info1 = AList.update ''Enum''
                 (AList.update p (store parent ''Values'' (Lst (xs @ [inst])))
                    (category info ''Enum'')) info"
    by (auto simp: append_child_def split: option.splits pyval.splits)
  show ?thesis
  proof (cases "e = p")
    case True
    with p v show ?thesis
      by (auto simp: nested_def i category_update update_conv' map_of_store)
  next
    case False
    then have "map_of (category info1 ''Enum'') e = map_of (category info ''Enum'') e"
      by (simp add: i category_update update_conv')
    from nested_cong [OF this] False show ?thesis by simp
  qed
qed

lemma parsed_values_empty:
  assumes "Instance_init blk = Inr inst"
  shows "map_of (dict inst) ''Values'' \<noteq> Some (Lst (v # vs))"
proof (cases "blk = []")
  case True
  with assms show ?thesis by (auto simp: Instance_init_Nil)
next
  case False
  then obtain l ls where l: "splitlines blk = l # ls"
    by (cases "splitlines blk") (auto simp: splitlines_Nil)
  with assms obtain k x where kv: "findall_first l = Some (k, x)"
    by (cases "findall_first l") (auto simp: Instance_init_def init_line_first)
  show ?thesis
    unfolding Instance_init_attrs [OF l kv assms]
    by (auto simp: first_attrs_def split: option.splits)
qed

lemma nested_file:
  assumes "getattr inst ''Type'' = Inr (Str ty)" and "getattr inst ''Name'' = Inr (Str name)"
    and "wf_info info1" and "file_inst info1 inst = Inr info'"
    and "\<And>v vs. map_of (dict inst) ''Values'' \<noteq> Some (Lst (v # vs))"
  shows "nested info' e c \<longleftrightarrow> \<not> (ty = ''Enum'' \<and> name = e) \<and> nested info1 e c"
proof (cases "ty = ''Enum''")
  case True
  with file_inst_wf [OF assms(1-4)]
  have cat: "category info' ''Enum'' = AList.update name inst (category info1 ''Enum'')"
    by simp
  show ?thesis
  proof (cases "name = e")
    case True
    have "\<not> nested info' e c"
    proof
      assume "nested info' e c"
      then obtain vs where "map_of (dict inst) ''Values'' = Some (Lst vs)" and "c \<in> set vs"
        by (auto simp: nested_def cat True [symmetric] update_conv'
            split: option.splits pyval.splits)
      with assms(5) show False by (cases vs) auto
    qed
    with True \<open>ty = ''Enum''\<close> show ?thesis by simp
  next
    case False
    then have "map_of (category info' ''Enum'') e = map_of (category info1 ''Enum'') e"
      by (simp add: cat update_conv')
    from nested_cong [OF this] False show ?thesis by simp
  qed
next
  case False
  with file_inst_wf [OF assms(1-4)]
  have "category info' ''Enum'' = category info1 ''Enum''" by simp
  then have "nested info' e c = nested info1 e c" by (simp add: nested_def)
  with False show ?thesis by simp
qed

text \<open>What one step of the loop does to the nesting of a record under an enum.\<close>

lemma gather_block_nested:
  assumes "wf_info info" and "gather_block info blk = Inr info'"
  shows "nested info' e c \<longleftrightarrow>
           \<not> block_is ''Enum'' e blk
           \<and> (nested info e c
               \<or> (Instance_init (sub_sep blk) = Inr c
                   \<and> getattr c ''Type'' = Inr (Str ''Constant'')
                   \<and> (\<exists>name. getattr c ''Name'' = Inr (Str name) \<and> prefix_of ''.'' name = e)
                   \<and> known info ''Enum'' e))"
proof -
  from assms(2) obtain inst ty name where p: "Instance_init (sub_sep blk) = Inr inst"
    and t: "getattr inst ''Type'' = Inr (Str ty)" and n: "getattr inst ''Name'' = Inr (Str name)"
    and cl: "classify info inst = Inr info'"
    by (rule gather_block_Inr)
  note b = block_is_parsed [OF p t n]
  have new: "(Instance_init (sub_sep blk) = Inr c
                   \<and> getattr c ''Type'' = Inr (Str ''Constant'')
                   \<and> (\<exists>name. getattr c ''Name'' = Inr (Str name) \<and> prefix_of ''.'' name = e)
                   \<and> known info ''Enum'' e)
             \<longleftrightarrow> (c = inst \<and> ty = ''Constant'' \<and> prefix_of ''.'' name = e \<and> known info ''Enum'' e)"
    using p t n by auto
  show ?thesis
  proof (cases "class_known info ty name")
    case True
    with cl obtain k f where a: "append_child info ''Class'' k f inst = Inr info'"
      unfolding classify_eq [OF t n assms(1)]
      by (auto simp: class_known_def split: if_splits)
    from True have ty: "ty \<noteq> ''Enum''" "ty \<noteq> ''Constant''" by (auto simp: class_known_def)
    from append_child_wf [OF assms(1) _ a]
    have "category info' ''Enum'' = category info ''Enum''" by simp
    then have "nested info' e c = nested info e c" by (simp add: nested_def)
    with ty show ?thesis unfolding new b by simp
  next
    case False
    from classify_filed [OF t n assms(1) cl False] obtain info1 where wf1: "wf_info info1"
      and f: "file_inst info1 inst = Inr info'"
      and u: "\<not> (ty = ''Constant'' \<and> known info ''Enum'' (prefix_of ''.'' name)) \<Longrightarrow> info1 = info"
      and a: "ty = ''Constant'' \<and> known info ''Enum'' (prefix_of ''.'' name) \<Longrightarrow>
         append_child info ''Enum'' (prefix_of ''.'' name) ''Values'' inst = Inr info1"
      by blast
    have 1: "nested info1 e c \<longleftrightarrow>
               nested info e c
               \<or> (c = inst \<and> ty = ''Constant'' \<and> prefix_of ''.'' name = e \<and> known info ''Enum'' e)"
    proof (cases "ty = ''Constant'' \<and> known info ''Enum'' (prefix_of ''.'' name)")
      case True
      from nested_append_enum [OF assms(1) a [OF True], of e c] True show ?thesis by auto
    next
      case False
      with u have "info1 = info" by simp
      with False show ?thesis by auto
    qed
    from nested_file [OF t n wf1 f parsed_values_empty [OF p], of e c] 1
    show ?thesis unfolding new b by auto
  qed
qed

lemma gather_blocks_nested_kept:
  assumes "wf_info info" and "gather_blocks info bs = Inr info'"
    and "\<forall>blk\<in>set bs. \<not> block_is ''Enum'' e blk" and "nested info e c"
  shows "nested info' e c"
  using assms
proof (induction bs arbitrary: info)
  case Nil
  then show ?case by simp
next
  case (Cons b bs)
  from Cons.prems(2) obtain info1 where 1: "gather_block info b = Inr info1"
    and 2: "gather_blocks info1 bs = Inr info'"
    by (auto split: sum.splits)
  from gather_block_wf [OF Cons.prems(1) 1] have wf1: "wf_info info1" .
  from Cons.prems(3,4) have "nested info1 e c"
    unfolding gather_block_nested [OF Cons.prems(1) 1] by simp
  with Cons.IH [OF wf1 2] Cons.prems(3) show ?case by simp
qed

lemma gather_blocks_not_nested_kept:
  assumes "wf_info info" and "gather_blocks info bs = Inr info'"
    and "\<forall>blk\<in>set bs. Instance_init (sub_sep blk) \<noteq> Inr c" and "\<not> nested info e c"
  shows "\<not> nested info' e c"
  using assms
proof (induction bs arbitrary: info)
  case Nil
  then show ?case by simp
next
  case (Cons b bs)
  from Cons.prems(2) obtain info1 where 1: "gather_block info b = Inr info1"
    and 2: "gather_blocks info1 bs = Inr info'"
    by (auto split: sum.splits)
  from gather_block_wf [OF Cons.prems(1) 1] have wf1: "wf_info info1" .
  from Cons.prems(3,4) have "\<not> nested info1 e c"
    unfolding gather_block_nested [OF Cons.prems(1) 1] by simp
  with Cons.IH [OF wf1 2] Cons.prems(3) show ?case by simp
qed

lemma gather_block_keys_mono:
  assumes "wf_info info" and "gather_block info blk = Inr info'" and "known info cat k"
  shows "known info' cat k"
proof -
  from assms(2) obtain inst ty name where p: "Instance_init (sub_sep blk) = Inr inst"
    and t: "getattr inst ''Type'' = Inr (Str ty)" and n: "getattr inst ''Name'' = Inr (Str name)"
    and cl: "classify info inst = Inr info'"
    by (rule gather_block_Inr)
  have filed: "known info' cat k" if wf1: "wf_info info1" and f: "file_inst info1 inst = Inr info'"
    and k1: "known info1 cat k" for info1
  proof (cases "cat = ty")
    case True
    with file_inst_wf [OF t n wf1 f]
    have "category info' cat = AList.update name inst (category info1 cat)" by simp
    with k1 show ?thesis by (auto simp: known_keys update_keys)
  next
    case False
    with file_inst_wf [OF t n wf1 f] have "category info' cat = category info1 cat" by simp
    with k1 show ?thesis by (simp add: known_def)
  qed
  have app: "known info1 cat k"
    if a: "append_child info c0 key f inst = Inr info1" and c0: "c0 = ''Enum'' \<or> c0 = ''Class''"
    for info1 c0 key f
  proof -
    from append_child_wf [OF assms(1) c0 a]
    have "map fst (category info1 cat) = map fst (category info cat)"
      by (cases "cat = c0") simp_all
    with assms(3) show ?thesis by (simp add: known_keys)
  qed
  show ?thesis
  proof (cases "class_known info ty name")
    case True
    with cl obtain key f where a: "append_child info ''Class'' key f inst = Inr info'"
      unfolding classify_eq [OF t n assms(1)]
      by (auto simp: class_known_def split: if_splits)
    from app [OF a] show ?thesis by simp
  next
    case False
    from classify_filed [OF t n assms(1) cl False] obtain info1 where wf1: "wf_info info1"
      and f: "file_inst info1 inst = Inr info'"
      and u: "\<not> (ty = ''Constant'' \<and> known info ''Enum'' (prefix_of ''.'' name)) \<Longrightarrow> info1 = info"
      and a: "ty = ''Constant'' \<and> known info ''Enum'' (prefix_of ''.'' name) \<Longrightarrow>
         append_child info ''Enum'' (prefix_of ''.'' name) ''Values'' inst = Inr info1"
      by blast
    have "known info1 cat k"
    proof (cases "ty = ''Constant'' \<and> known info ''Enum'' (prefix_of ''.'' name)")
      case True
      from app [OF a [OF True]] show ?thesis by simp
    next
      case False
      with u assms(3) show ?thesis by simp
    qed
    from filed [OF wf1 f this] show ?thesis .
  qed
qed

lemma gather_blocks_keys_mono:
  "wf_info info \<Longrightarrow> gather_blocks info bs = Inr info' \<Longrightarrow> known info cat k
   \<Longrightarrow> known info' cat k"
proof (induction bs arbitrary: info)
  case Nil
  then show ?case by simp
next
  case (Cons b bs)
  from Cons.prems(2) obtain info1 where 1: "gather_block info b = Inr info1"
    and 2: "gather_blocks info1 bs = Inr info'"
    by (auto split: sum.splits)
  from gather_block_wf [OF Cons.prems(1) 1] have wf1: "wf_info info1" .
  from gather_block_keys_mono [OF Cons.prems(1) 1 Cons.prems(3)] have "known info1 cat k" .
  from Cons.IH [OF wf1 2 this] show ?case .
qed

lemma nested_known: "nested info e c \<Longrightarrow> known info ''Enum'' e"
  by (auto simp: nested_def known_def split: option.splits)

text \<open>The nesting of a constant, by the states of the loop before and after its block.\<close>

lemma constant_nesting:
  assumes "gather_blocks info_init pre = Inr info"
    and "Instance_init (sub_sep b) = Inr c"
    and "getattr c ''Type'' = Inr (Str ''Constant'')" and "getattr c ''Name'' = Inr (Str name)"
    and "gather_block info b = Inr info'"
    and "gather_blocks info' post = Inr final"
    and "e = prefix_of ''.'' name"
  shows "(nested info' e c \<longleftrightarrow> (\<exists>blk\<in>set pre. block_is ''Enum'' e blk))
         \<and> ((\<forall>blk\<in>set post. \<not> block_is ''Enum'' e blk)
              \<longrightarrow> (nested final e c \<longleftrightarrow> (\<exists>blk\<in>set pre. block_is ''Enum'' e blk)))
         \<and> (\<not> (\<exists>blk\<in>set pre. block_is ''Enum'' e blk)
              \<longrightarrow> map_of (category info' ''Constant'') name = Some c
                  \<and> category info' ''Enum'' = category info ''Enum''
                  \<and> known final ''Constant'' name
                  \<and> ((\<forall>blk\<in>set post. Instance_init (sub_sep blk) \<noteq> Inr c)
                       \<longrightarrow> \<not> nested final e c))"
proof -
  note wf = reachable_wf [OF assms(1)]
  note wf' = gather_block_wf [OF wf assms(5)]
  have keys: "known info ''Enum'' e \<longleftrightarrow> (\<exists>blk\<in>set pre. block_is ''Enum'' e blk)"
    by (rule reachable_enum_keys [OF assms(1)])
  have nb: "\<not> block_is ''Enum'' e b"
    by (simp add: block_is_parsed [OF assms(2-4)])
  have step: "nested info' e c \<longleftrightarrow> known info ''Enum'' e"
    unfolding gather_block_nested [OF wf assms(5)]
    using nb assms(2-4,7) nested_known [of info e c] by auto
  have 1: "nested info' e c \<longleftrightarrow> (\<exists>blk\<in>set pre. block_is ''Enum'' e blk)"
    using step keys by simp
  have 2: "nested final e c \<longleftrightarrow> (\<exists>blk\<in>set pre. block_is ''Enum'' e blk)"
    if none: "\<forall>blk\<in>set post. \<not> block_is ''Enum'' e blk"
  proof
    assume "nested final e c"
    then have "known final ''Enum'' e" by (rule nested_known)
    with none have "known info' ''Enum'' e"
      unfolding gather_blocks_enum_keys [OF wf' assms(6)] by simp
    with nb have "known info ''Enum'' e"
      unfolding gather_block_enum_keys [OF wf assms(5)] by simp
    with keys show "\<exists>blk\<in>set pre. block_is ''Enum'' e blk" by simp
  next
    assume "\<exists>blk\<in>set pre. block_is ''Enum'' e blk"
    with 1 have "nested info' e c" by simp
    with wf' assms(6) none show "nested final e c" by (rule gather_blocks_nested_kept)
  qed
  have 3: "map_of (category info' ''Constant'') name = Some c
           \<and> category info' ''Enum'' = category info ''Enum''
           \<and> known final ''Constant'' name
           \<and> ((\<forall>blk\<in>set post. Instance_init (sub_sep blk) \<noteq> Inr c) \<longrightarrow> \<not> nested final e c)"
    if no: "\<not> (\<exists>blk\<in>set pre. block_is ''Enum'' e blk)"
  proof -
    from no keys have nk: "\<not> known info ''Enum'' e" by simp
    from assms(2,5) have cl: "classify info c = Inr info'"
      by (simp add: gather_block_def bind_Inr)
    have "\<not> class_known info ''Constant'' name" by (simp add: class_known_def)
    from classify_filed [OF assms(3,4) wf cl this] nk assms(7)
    have f: "file_inst info c = Inr info'" by auto
    from file_inst_wf [OF assms(3,4) wf f]
    have ce: "category info' ''Enum'' = category info ''Enum''"
      and cc: "category info' ''Constant'' = AList.update name c (category info ''Constant'')"
      by simp_all
    from cc have m: "map_of (category info' ''Constant'') name = Some c"
      by (simp add: update_conv')
    then have "known info' ''Constant'' name" by (simp add: known_def)
    with wf' assms(6) have kf: "known final ''Constant'' name"
      by (rule gather_blocks_keys_mono)
    from step nk have nn: "\<not> nested info' e c" by simp
    have "\<not> nested final e c" if "\<forall>blk\<in>set post. Instance_init (sub_sep blk) \<noteq> Inr c"
      using wf' assms(6) that nn by (rule gather_blocks_not_nested_kept)
    with m ce kf show ?thesis by simp
  qed
  from 1 2 3 show ?thesis by blast
qed

lemma gather_blocks_append:
  "gather_blocks info (xs @ ys) =
     (case gather_blocks info xs of Inl e \<Rightarrow> Inl e | Inr info1 \<Rightarrow> gather_blocks info1 ys)"
  by (induction xs arbitrary: info) (auto split: sum.splits)

lemma gather_blocks_split:
  assumes "gather_blocks info0 (pre @ b # post) = Inr final"
  shows "\<exists>info info'. gather_blocks info0 pre = Inr info \<and> gather_block info b = Inr info'
           \<and> gather_blocks info' post = Inr final
           \<and> gather_blocks info0 (pre @ [b]) = Inr info'"
  using assms by (auto simp: gather_blocks_append split: sum.splits)

text \<open>
  C4 (as stated, refuted). The blocks \<^verbatim>\<open>Enum: E\<close>, \<^verbatim>\<open>Constant: E.X\<close>, \<^verbatim>\<open>Enum: E\<close>: a block
  of the enum comes before the constant, and in the result the constant is not among the
  \<^verbatim>\<open>Values\<close> of \<^verbatim>\<open>E\<close>, because the last block has replaced the record of the enum.
\<close>

theorem C4_counterexample:
  "gather_info ''Enum: E\<newline>\<newline>Constant: E.X\<newline>Value: 1\<newline>\<newline>Enum: E''
   = Inr [(''Enum'', [(''E'', Obj [(''Type'', Str ''Enum''), (''Name'', Str ''E''), (''Values'', Lst []), (''Description'', Str [])])]), (''Constant'', [(''E.X'', Obj [(''Type'', Str ''Constant''), (''Name'', Str ''E.X''), (''Value'', Str ''1''), (''Description'', Str [])])]), (''Class'', []), (''Function'', []), (''Hook'', [])]
   \<and> block_is ''Enum'' ''E'' ''Enum: E''
   \<and> Instance_init (sub_sep ''Constant: E.X\<newline>Value: 1'')
     = Inr (Obj [(''Type'', Str ''Constant''), (''Name'', Str ''E.X''), (''Value'', Str ''1''), (''Description'', Str [])])
   \<and> \<not> nested [(''Enum'', [(''E'', Obj [(''Type'', Str ''Enum''), (''Name'', Str ''E''), (''Values'', Lst []), (''Description'', Str [])])]), (''Constant'', [(''E.X'', Obj [(''Type'', Str ''Constant''), (''Name'', Str ''E.X''), (''Value'', Str ''1''), (''Description'', Str [])])]), (''Class'', []), (''Function'', []), (''Hook'', [])] ''E'' (Obj [(''Type'', Str ''Constant''), (''Name'', Str ''E.X''), (''Value'', Str ''1''), (''Description'', Str [])])"
  by code_simp

text \<open>
  C4 (amended). For the blocks of a text that \<^verbatim>\<open>gather_info\<close> accepts, and a constant
  among them: once its block is processed, the constant is among the \<^verbatim>\<open>Values\<close> of the enum
  named by its prefix if and only if a block of that enum came earlier in the sequence;
  the same holds in the result of \<^verbatim>\<open>gather_info\<close> when no later block is an enum of that
  name again, whereas after such a later block the constant is not nested. When no block
  of the enum came earlier, the name of the constant is filed under Constant in the
  result, and an enum that comes later does not nest it. (Records are values here: the
  last two statements leave aside a later block that is parsed to the very same record,
  which would be nested in its own right.)
\<close>

theorem C4_nested_iff_enum_earlier_unless_replaced:
  assumes "split ''\<newline>\<newline>'' raw = pre @ b # post"
    and "gather_info raw = Inr final"
    and "Instance_init (sub_sep b) = Inr c"
    and "getattr c ''Type'' = Inr (Str ''Constant'')" and "getattr c ''Name'' = Inr (Str name)"
    and "e = prefix_of ''.'' name"
  shows "(\<exists>mid. gather_blocks info_init (pre @ [b]) = Inr mid
              \<and> (nested mid e c \<longleftrightarrow> (\<exists>blk\<in>set pre. block_is ''Enum'' e blk)))
         \<and> ((\<forall>blk\<in>set post. \<not> block_is ''Enum'' e blk)
              \<longrightarrow> (nested final e c \<longleftrightarrow> (\<exists>blk\<in>set pre. block_is ''Enum'' e blk)))
         \<and> ((\<exists>p1 be p2. post = p1 @ be # p2 \<and> block_is ''Enum'' e be
                  \<and> (\<forall>blk\<in>set p2. Instance_init (sub_sep blk) \<noteq> Inr c))
              \<longrightarrow> \<not> nested final e c)
         \<and> (\<not> (\<exists>blk\<in>set pre. block_is ''Enum'' e blk)
              \<longrightarrow> known final ''Constant'' name
                  \<and> ((\<forall>blk\<in>set post. Instance_init (sub_sep blk) \<noteq> Inr c)
                       \<longrightarrow> \<not> nested final e c))"
proof -
  from assms(1,2) have "gather_blocks info_init (pre @ b # post) = Inr final"
    by (simp add: gather_info_def)
  from gather_blocks_split [OF this] obtain info info' where
    1: "gather_blocks info_init pre = Inr info" and 2: "gather_block info b = Inr info'"
    and 3: "gather_blocks info' post = Inr final"
    and 4: "gather_blocks info_init (pre @ [b]) = Inr info'"
    by blast
  note main = constant_nesting [OF 1 assms(3-5) 2 3 assms(6)]
  have wf': "wf_info info'"
    using reachable_wf [OF 1] 2 by (rule gather_block_wf)
  have a: "\<exists>mid. gather_blocks info_init (pre @ [b]) = Inr mid
              \<and> (nested mid e c \<longleftrightarrow> (\<exists>blk\<in>set pre. block_is ''Enum'' e blk))"
    using 4 main by blast
  have d: "\<not> nested final e c"
    if "\<exists>p1 be p2. post = p1 @ be # p2 \<and> block_is ''Enum'' e be
                  \<and> (\<forall>blk\<in>set p2. Instance_init (sub_sep blk) \<noteq> Inr c)"
  proof -
    from that obtain p1 be p2 where p: "post = p1 @ be # p2" and be: "block_is ''Enum'' e be"
      and p2: "\<forall>blk\<in>set p2. Instance_init (sub_sep blk) \<noteq> Inr c" by blast
    from 3 p gather_blocks_split [of info' p1 be p2 final] obtain i1 i2 where
      g1: "gather_blocks info' p1 = Inr i1" and g2: "gather_block i1 be = Inr i2"
      and g3: "gather_blocks i2 p2 = Inr final" by blast
    from wf' g1 have w1: "wf_info i1" by (rule gather_blocks_wf)
    from w1 g2 have w2: "wf_info i2" by (rule gather_block_wf)
    from be have "\<not> nested i2 e c"
      unfolding gather_block_nested [OF w1 g2] by simp
    with w2 g3 p2 show ?thesis by (rule gather_blocks_not_nested_kept)
  qed
  from a d main show ?thesis by blast
qed

theorem C4_nested_iff_enum_earlier_unless_replaced_witness:
  "gather_info ''Enum: E\<newline>\<newline>Constant: E.X\<newline>Value: 1\<newline>\<newline>Class: C''
     = Inr [(''Enum'', [(''E'', Obj [(''Type'', Str ''Enum''), (''Name'', Str ''E''), (''Values'', Lst [Obj [(''Type'', Str ''Constant''), (''Name'', Str ''E.X''), (''Value'', Str ''1''), (''Description'', Str [])]]), (''Description'', Str [])])]), (''Constant'', [(''E.X'', Obj [(''Type'', Str ''Constant''), (''Name'', Str ''E.X''), (''Value'', Str ''1''), (''Description'', Str [])])]), (''Class'', [(''C'', Obj [(''Type'', Str ''Class''), (''Name'', Str ''C''), (''Functions'', Lst []), (''Members'', Lst []), (''Hooks'', Lst []), (''Description'', Str [])])]), (''Function'', []), (''Hook'', [])]
   \<and> nested [(''Enum'', [(''E'', Obj [(''Type'', Str ''Enum''), (''Name'', Str ''E''), (''Values'', Lst [Obj [(''Type'', Str ''Constant''), (''Name'', Str ''E.X''), (''Value'', Str ''1''), (''Description'', Str [])]]), (''Description'', Str [])])]), (''Constant'', [(''E.X'', Obj [(''Type'', Str ''Constant''), (''Name'', Str ''E.X''), (''Value'', Str ''1''), (''Description'', Str [])])]), (''Class'', [(''C'', Obj [(''Type'', Str ''Class''), (''Name'', Str ''C''), (''Functions'', Lst []), (''Members'', Lst []), (''Hooks'', Lst []), (''Description'', Str [])])]), (''Function'', []), (''Hook'', [])] ''E'' (Obj [(''Type'', Str ''Constant''), (''Name'', Str ''E.X''), (''Value'', Str ''1''), (''Description'', Str [])])
   \<and> gather_info ''Constant: E.X\<newline>Value: 1\<newline>\<newline>Enum: E''
     = Inr [(''Enum'', [(''E'', Obj [(''Type'', Str ''Enum''), (''Name'', Str ''E''), (''Values'', Lst []), (''Description'', Str [])])]), (''Constant'', [(''E.X'', Obj [(''Type'', Str ''Constant''), (''Name'', Str ''E.X''), (''Value'', Str ''1''), (''Description'', Str [])])]), (''Class'', []), (''Function'', []), (''Hook'', [])]
   \<and> \<not> nested [(''Enum'', [(''E'', Obj [(''Type'', Str ''Enum''), (''Name'', Str ''E''), (''Values'', Lst []), (''Description'', Str [])])]), (''Constant'', [(''E.X'', Obj [(''Type'', Str ''Constant''), (''Name'', Str ''E.X''), (''Value'', Str ''1''), (''Description'', Str [])])]), (''Class'', []), (''Function'', []), (''Hook'', [])] ''E'' (Obj [(''Type'', Str ''Constant''), (''Name'', Str ''E.X''), (''Value'', Str ''1''), (''Description'', Str [])])
   \<and> known [(''Enum'', [(''E'', Obj [(''Type'', Str ''Enum''), (''Name'', Str ''E''), (''Values'', Lst []), (''Description'', Str [])])]), (''Constant'', [(''E.X'', Obj [(''Type'', Str ''Constant''), (''Name'', Str ''E.X''), (''Value'', Str ''1''), (''Description'', Str [])])]), (''Class'', []), (''Function'', []), (''Hook'', [])] ''Constant'' ''E.X''"
proof -
  let ?c = "Obj [(''Type'', Str ''Constant''), (''Name'', Str ''E.X''), (''Value'', Str ''1''), (''Description'', Str [])]"
  let ?F1 = "[(''Enum'', [(''E'', Obj [(''Type'', Str ''Enum''), (''Name'', Str ''E''), (''Values'', Lst [Obj [(''Type'', Str ''Constant''), (''Name'', Str ''E.X''), (''Value'', Str ''1''), (''Description'', Str [])]]), (''Description'', Str [])])]), (''Constant'', [(''E.X'', Obj [(''Type'', Str ''Constant''), (''Name'', Str ''E.X''), (''Value'', Str ''1''), (''Description'', Str [])])]), (''Class'', [(''C'', Obj [(''Type'', Str ''Class''), (''Name'', Str ''C''), (''Functions'', Lst []), (''Members'', Lst []), (''Hooks'', Lst []), (''Description'', Str [])])]), (''Function'', []), (''Hook'', [])]"
  let ?F2 = "[(''Enum'', [(''E'', Obj [(''Type'', Str ''Enum''), (''Name'', Str ''E''), (''Values'', Lst []), (''Description'', Str [])])]), (''Constant'', [(''E.X'', Obj [(''Type'', Str ''Constant''), (''Name'', Str ''E.X''), (''Value'', Str ''1''), (''Description'', Str [])])]), (''Class'', []), (''Function'', []), (''Hook'', [])]"
  have p: "''E'' = prefix_of ''.'' ''E.X''" by code_simp
  have s1: "split ''\<newline>\<newline>'' ''Enum: E\<newline>\<newline>Constant: E.X\<newline>Value: 1\<newline>\<newline>Class: C'' = [''Enum: E''] @ ''Constant: E.X\<newline>Value: 1'' # [''Class: C'']"
    by code_simp
  have g1: "gather_info ''Enum: E\<newline>\<newline>Constant: E.X\<newline>Value: 1\<newline>\<newline>Class: C'' = Inr ?F1" by code_simp
  have s2: "split ''\<newline>\<newline>'' ''Constant: E.X\<newline>Value: 1\<newline>\<newline>Enum: E'' = [] @ ''Constant: E.X\<newline>Value: 1'' # [''Enum: E'']"
    by code_simp
  have g2: "gather_info ''Constant: E.X\<newline>Value: 1\<newline>\<newline>Enum: E'' = Inr ?F2" by code_simp
  have 2: "Instance_init (sub_sep ''Constant: E.X\<newline>Value: 1'') = Inr ?c" by code_simp
  have 3: "getattr ?c ''Type'' = Inr (Str ''Constant'')" by code_simp
  have 4: "getattr ?c ''Name'' = Inr (Str ''E.X'')" by code_simp
  have 7: "block_is ''Enum'' ''E'' ''Enum: E''" by code_simp
  have 8: "\<not> block_is ''Enum'' ''E'' ''Class: C''" by code_simp
  have 12: "Instance_init (sub_sep ''Enum: E'') \<noteq> Inr ?c" by code_simp
  from C4_nested_iff_enum_earlier_unless_replaced [OF s1 g1 2 3 4 p] 7 8 have a: "nested ?F1 ''E'' ?c"
    by simp
  from C4_nested_iff_enum_earlier_unless_replaced [OF s2 g2 2 3 4 p] 12
  have b: "\<not> nested ?F2 ''E'' ?c \<and> known ?F2 ''Constant'' ''E.X''"
    by simp
  from g1 g2 a b show ?thesis by simp
qed

subsection \<open>Failure before any output\<close>

lemma Instance_init_line_no_colon:
  assumes "l \<in> set (splitlines blk)" and "CHR '':'' \<notin> set l"
  shows "\<exists>e. Instance_init blk = Inl e"
proof -
  from assms(2) have n: "findall_first l = None" by (rule findall_first_no_colon)
  from assms(1) obtain l0 ls where s: "splitlines blk = l0 # ls"
    by (cases "splitlines blk") auto
  with assms(1) have "l = l0 \<or> l \<in> set ls" by simp
  moreover from n have "later_line_fails l" by (simp add: later_line_fails_def)
  ultimately have "findall_first l0 = None \<or> (\<exists>l'\<in>set ls. later_line_fails l')"
    using n by blast
  with s show ?thesis by (simp add: Instance_init_fail_iff)
qed

lemma gather_blocks_fail:
  assumes "b \<in> set bs" and "\<exists>e. Instance_init (sub_sep b) = Inl e"
  shows "\<exists>e. gather_blocks info bs = Inl e"
  using assms(1)
proof (induction bs arbitrary: info)
  case Nil
  then show ?case by simp
next
  case (Cons x bs)
  show ?case
  proof (cases "gather_block info x")
    case (Inl e)
    then show ?thesis by simp
  next
    case (Inr info1)
    with assms(2) have "x \<noteq> b" by (auto simp: gather_block_def bind_Inl)
    with Cons.prems have "b \<in> set bs" by simp
    from Cons.IH [OF this, of info1] Inr show ?thesis by simp
  qed
qed

lemma collect_length: "collect xs = Inr ys \<Longrightarrow> length ys = length xs"
  by (induction xs arbitrary: ys) (auto split: sum.splits)

lemma generate_docs_length:
  "generate_docs version info ctx = Inr docs \<Longrightarrow> length docs = length info"
  by (auto simp: generate_docs_def dest: collect_length)

lemma gather_info_length:
  assumes "gather_info raw = Inr info" shows "length info = 5"
proof -
  from assms have "wf_info info" unfolding gather_info_def by (rule reachable_wf)
  then have "length (map fst info) = 5" by (simp add: wf_info_def)
  then show ?thesis by simp
qed

lemma docs_length:
  assumes "bind (gather_info raw) (\<lambda>i. generate_docs version i ctx) = Inr docs"
  shows "length docs = 5"
proof -
  from assms obtain info where "gather_info raw = Inr info"
    and "generate_docs version info ctx = Inr docs"
    by (auto simp: bind_def split: sum.splits)
  then show ?thesis by (simp add: generate_docs_length gather_info_length)
qed

lemma run_Inr: "run (map Inr xs) = (xs, None)"
  by (induction xs) auto

lemma write_context_Inr:
  assumes "length docs = 5"
  shows "\<exists>xs. write_context ex dir docs = map Inr xs"
proof -
  have "write_context ex dir docs
        = map Inr ((if \<not> ex dir then [Mkdir dir] else [])
                   @ [Write (dir @ ''/enums.md'') (docs ! 0),
                      Write (dir @ ''/constants.md'') (docs ! 1),
                      Write (dir @ ''/classes.md'') (docs ! 2),
                      Write (dir @ ''/functions.md'') (docs ! 3),
                      Write (dir @ ''/hooks.md'') (docs ! 4)])"
    using assms by (simp add: write_context_def item_def bind_Inr)
  then show ?thesis by blast
qed

lemma main_error_no_effects:
  assumes "main ex file = (effs, Some e)" shows "effs = []"
proof (cases "file")
  case None
  with assms show ?thesis by (simp add: main_def)
next
  case (Some dump0)
  show ?thesis
  proof (rule ccontr)
    assume ne: "effs \<noteq> []"
    with assms Some obtain version dump server_text client_text sd cd where
      s: "bind (gather_info server_text) (\<lambda>i. generate_docs version i ''Server'') = Inr sd"
      and c: "bind (gather_info client_text) (\<lambda>i. generate_docs version i ''Client'') = Inr cd"
      and r: "run (write_context ex ''server'' sd @ write_context ex ''client'' cd) = (effs, Some e)"
      by (auto simp: main_def split: list.splits sum.splits)
    from write_context_Inr [OF docs_length [OF s]] obtain xs
      where xs: "write_context ex ''server'' sd = map Inr xs" by blast
    from write_context_Inr [OF docs_length [OF c]] obtain ys
      where ys: "write_context ex ''client'' cd = map Inr ys" by blast
    have "run (write_context ex ''server'' sd @ write_context ex ''client'' cd) = (xs @ ys, None)"
      unfolding xs ys map_append [symmetric] by (rule run_Inr)
    with r show False by simp
  qed
qed

text \<open>
  C7. If a block of the server or of the client text has a line without a colon, the
  program stops with an exception and has created no directory and written no file.
  More generally it never stops with an exception after an effect: both contexts are
  parsed and rendered before the first directory is created.
\<close>

theorem C7_no_output_on_malformed_block:
  assumes "split1 ''\<newline>'' dump0 = [version, dump]"
    and "split ''\<newline>DOCUMENTATION_CLIENT\<newline>'' dump = [server_text, client_text]"
    and "raw = server_text \<or> raw = client_text"
    and "b \<in> set (split ''\<newline>\<newline>'' raw)"
    and "l \<in> set (splitlines (sub_sep b))" and "CHR '':'' \<notin> set l"
  shows "(\<exists>e. main ex (Some dump0) = ([], Some e))
         \<and> (\<forall>file effs e. main ex file = (effs, Some e) \<longrightarrow> effs = [])"
proof
  from assms(5,6) have "\<exists>e. Instance_init (sub_sep b) = Inl e"
    by (rule Instance_init_line_no_colon)
  with assms(4) obtain e where g: "gather_info raw = Inl e"
    unfolding gather_info_def using gather_blocks_fail by blast
  let ?s = "bind (gather_info server_text) (\<lambda>i. generate_docs version i ''Server'')"
  let ?c = "bind (gather_info client_text) (\<lambda>i. generate_docs version i ''Client'')"
  have m: "main ex (Some dump0) =
        (case ?s of Inl e \<Rightarrow> ([], Some e)
         | Inr server_docs \<Rightarrow>
             (case ?c of Inl e \<Rightarrow> ([], Some e)
              | Inr client_docs \<Rightarrow>
                  run (write_context ex ''server'' server_docs
                       @ write_context ex ''client'' client_docs)))"
    by (simp add: main_def assms(1,2))
  from assms(3) show "\<exists>e. main ex (Some dump0) = ([], Some e)"
  proof
    assume "raw = server_text"
    with g have "?s = Inl e" by (simp add: bind_Inl)
    with m show ?thesis by simp
  next
    assume "raw = client_text"
    with g have "?c = Inl e" by (simp add: bind_Inl)
    with m show ?thesis by (cases ?s) simp_all
  qed
next
  show "\<forall>file effs e. main ex file = (effs, Some e) \<longrightarrow> effs = []"
    using main_error_no_effects by blast
qed

theorem C7_no_output_on_malformed_block_witness:
  "\<exists>e. main (\<lambda>path. False)
         (Some ''7.1\<newline>Enum: Foo\<newline>\<newline>no colon here\<newline>DOCUMENTATION_CLIENT\<newline>Class: C'')
       = ([], Some e)"
proof -
  have 1: "split1 ''\<newline>'' ''7.1\<newline>Enum: Foo\<newline>\<newline>no colon here\<newline>DOCUMENTATION_CLIENT\<newline>Class: C''
           = [''7.1'', ''Enum: Foo\<newline>\<newline>no colon here\<newline>DOCUMENTATION_CLIENT\<newline>Class: C'']"
    by code_simp
  have 2: "split ''\<newline>DOCUMENTATION_CLIENT\<newline>''
             ''Enum: Foo\<newline>\<newline>no colon here\<newline>DOCUMENTATION_CLIENT\<newline>Class: C''
           = [''Enum: Foo\<newline>\<newline>no colon here'', ''Class: C'']"
    by code_simp
  have 3: "''Enum: Foo\<newline>\<newline>no colon here'' = ''Enum: Foo\<newline>\<newline>no colon here''
           \<or> ''Enum: Foo\<newline>\<newline>no colon here'' = ''Class: C''"
    by simp
  have 4: "''no colon here'' \<in> set (split ''\<newline>\<newline>'' ''Enum: Foo\<newline>\<newline>no colon here'')"
    by code_simp
  have 5: "''no colon here'' \<in> set (splitlines (sub_sep ''no colon here''))"
    by code_simp
  have 6: "CHR '':'' \<notin> set ''no colon here''" by simp
  from C7_no_output_on_malformed_block [OF 1 2 3 4 5 6] show ?thesis by blast
qed

subsection \<open>A constant of an enum is filed twice\<close>

text \<open>
  C1. The program on an enum and one constant of it: the constant is appended to the
  \<^verbatim>\<open>Values\<close> of the enum and is also filed under Constant, so that it is a row of the
  table of \<^verbatim>\<open>constants.md\<close> too. The first \<^verbatim>\<open>if\<close> of the loop is not part of the chain
  that follows it, whose \<^verbatim>\<open>else\<close> files every record that is not a function, member or
  hook of a class.
\<close>

theorem C1_nested_constant_is_also_filed:
  "gather_info ''Enum: Foo\<newline>\<newline>Constant: Foo.A\<newline>Value: 1''
   = Inr [(''Enum'',
           [(''Foo'', Obj [(''Type'', Str ''Enum''), (''Name'', Str ''Foo''),
                          (''Values'', Lst [Obj [(''Type'', Str ''Constant''),
                                                 (''Name'', Str ''Foo.A''), (''Value'', Str ''1''),
                                                 (''Description'', Str [])]]),
                          (''Description'', Str [])])]),
          (''Constant'',
           [(''Foo.A'', Obj [(''Type'', Str ''Constant''), (''Name'', Str ''Foo.A''),
                            (''Value'', Str ''1''), (''Description'', Str [])])]),
          (''Class'', []), (''Function'', []), (''Hook'', [])]
   \<and> bind (gather_info ''Enum: Foo\<newline>\<newline>Constant: Foo.A\<newline>Value: 1'')
        (\<lambda>i. bind (generate_docs ''7.1'' i ''Server'') (\<lambda>docs. item docs 1))
   = Inr ''# VScript Server Constants, version 7.1\<newline>\<newline>Generated by Macosaro\<newline>\<newline>| Name | Value | Description |\<newline>| --- | --- | --- |\<newline>| Foo.A | 1 |\<newline>''"
  by code_simp

end
